theory Spec2Isabelle
  imports Main "HOL-Library.Word" "HOL-Library.Char_ord" "HOL-Library.List_Lexorder"
begin

unbundle bit_operations_syntax

section \<open>JavaScript strings and truthiness\<close>

text \<open>
  A JavaScript string is modelled as a \<^typ>\<open>string\<close>; a \<^typ>\<open>char\<close> stands for one code
  unit below 256 (ASCII and Latin-1). A value that may be \<open>undefined\<close> or \<open>null\<close> is a
  \<^typ>\<open>string option\<close>. \<open>!x\<close> holds for \<open>undefined\<close> and for the empty string.
\<close>

fun falsy :: "string option \<Rightarrow> bool" where
  "falsy None = True"
| "falsy (Some s) = (s = [])"

text \<open>\<open>String.prototype.toLowerCase\<close> on code units below 256: \<open>A-Z\<close> and the
  Latin-1 capitals \<open>U+00C0 .. U+00DE\<close> (without the multiplication sign \<open>U+00D7\<close>) move up by 32.\<close>

definition is_upper_code :: "nat \<Rightarrow> bool" where
  "is_upper_code n = ((65 \<le> n \<and> n \<le> 90) \<or> (192 \<le> n \<and> n \<le> 222 \<and> n \<noteq> 215))"

definition lower_char :: "char \<Rightarrow> char" where
  "lower_char c = (if is_upper_code (of_char c) then char_of ((of_char c :: nat) + 32) else c)"

definition toLowerCase :: "string \<Rightarrow> string" where
  "toLowerCase s = map lower_char s"

text \<open>White space as \<open>trim\<close> and the regular expression class \<open>\s\<close> read it, below 256:
  tab, line feed, vertical tab, form feed, carriage return, space, no-break space.\<close>

definition is_space :: "char \<Rightarrow> bool" where
  "is_space c = ((of_char c :: nat) \<in> {9, 10, 11, 12, 13, 32, 160})"

definition trim :: "string \<Rightarrow> string" where
  "trim s = rev (dropWhile is_space (rev (dropWhile is_space s)))"

text \<open>\<open>EMAIL_REGEX = /^[^\s@]+@[^\s@]+\.[^\s@]+$/\<close>: a non-empty local part, one \<open>@\<close>, and a
  domain holding a dot with something on both sides; no white space and no second \<open>@\<close>.\<close>

definition EMAIL_REGEX_test :: "string \<Rightarrow> bool" where
  "EMAIL_REGEX_test s =
     (let local_part = takeWhile (\<lambda>c. c \<noteq> CHR ''@'') s;
          domain = drop (Suc (length local_part)) s
      in local_part \<noteq> [] \<and> length local_part < length s
         \<and> \<not> list_ex is_space s
         \<and> \<not> list_ex (\<lambda>c. c = CHR ''@'') domain
         \<and> list_ex (\<lambda>c. c = CHR ''.'') (butlast (tl domain)))"

section \<open>Responses\<close>

text \<open>A failing response is its HTTP status and its message (the \<open>error\<close> field of the JSON
  envelope, or the text of the HTML error page).\<close>

datatype http_error = Http_error (err_status: nat) (err_message: string)

section \<open>Subscription manager\<close>

subsection \<open>The subscribers table\<close>

text \<open>\<open>verified_at\<close> is written as \<open>unixepoch()\<close> by the verify route and as
  \<open>CURRENT_TIMESTAMP\<close> by the subscribe route; both carry the reading of the clock.\<close>

datatype sqltime = Unixepoch nat | Current_timestamp nat

record subscriber =
  sub_id :: nat
  email :: string
  name :: "string option"
  verification_token :: "string option"
  verified :: int
  active :: int
  created_at :: nat
  verified_at :: "sqltime option"

text \<open>The table is the list of its rows in rowid order. \<open>first()\<close> returns the first row a
  \<open>SELECT\<close> finds; an \<open>UPDATE ... WHERE\<close> rewrites every row the condition selects.\<close>

type_synonym db = "subscriber list"

definition sql_update :: "(subscriber \<Rightarrow> bool) \<Rightarrow> (subscriber \<Rightarrow> subscriber) \<Rightarrow> db \<Rightarrow> db" where
  "sql_update cond upd rows = map (\<lambda>r. if cond r then upd r else r) rows"

definition next_rowid :: "db \<Rightarrow> nat" where
  "next_rowid rows = Suc (foldr max (map sub_id rows) 0)"

text \<open>\<open>INSERT INTO subscribers (email, name, verified, verified_at, active)\<close>: the row gets
  the next rowid, no token, and the defaults of the schema; the statement fails on the
  \<open>UNIQUE\<close> constraint of \<open>email\<close>.\<close>

definition sql_insert :: "nat \<Rightarrow> string \<Rightarrow> string option \<Rightarrow> db \<Rightarrow> db option" where
  "sql_insert now e n rows =
     (if list_ex (\<lambda>r. email r = e) rows then None
      else Some (rows @ [\<lparr>sub_id = next_rowid rows, email = e, name = n,
                           verification_token = None, verified = 1, active = 1,
                           created_at = now, verified_at = Some (Current_timestamp now)\<rparr>]))"

subsection \<open>Captcha\<close>

text \<open>The outcome of the call to the captcha provider: the request threw, the status was
  not OK, or a verdict came back with its optional error codes.\<close>

datatype siteverify = Fetch_threw | Not_ok | Verdict bool "string list option"

fun join_codes :: "string list \<Rightarrow> string" where
  "join_codes [] = []"
| "join_codes [c] = c"
| "join_codes (c # cs) = c @ '', '' @ join_codes cs"

fun validateTurnstile :: "siteverify \<Rightarrow> bool \<times> string option" where
  "validateTurnstile Fetch_threw = (False, Some ''Failed to validate Turnstile token'')"
| "validateTurnstile Not_ok = (False, Some ''Turnstile verification service unavailable'')"
| "validateTurnstile (Verdict True codes) = (True, None)"
| "validateTurnstile (Verdict False codes) =
     (False, Some (''Turnstile validation failed: '' @
        (let joined = (case codes of None \<Rightarrow> [] | Some cs \<Rightarrow> join_codes cs)
         in if joined = [] then ''Unknown error'' else joined)))"

subsection \<open>Subscribe\<close>

record subscribe_request =
  req_email :: "string option"
  req_name :: "string option"
  req_turnstileToken :: "string option"

definition sanitize_name :: "string option \<Rightarrow> string option" where
  "sanitize_name n =
     (case n of None \<Rightarrow> None
      | Some s \<Rightarrow> (let t = take 100 (trim s) in if t = [] then None else Some t))"

datatype subscribe_message = Already_subscribed | Welcome_back | You_are_subscribed

text \<open>\<open>subscribeRoute.post\<close>. The body is \<open>None\<close> when it is not JSON. The messages are
  "You are already subscribed!", "Welcome back! Subscription reactivated." and
  "You're subscribed! You'll receive the next newsletter.".\<close>

definition subscribe ::
  "nat \<Rightarrow> siteverify \<Rightarrow> subscribe_request option \<Rightarrow> db \<Rightarrow> (http_error + subscribe_message) \<times> db" where
  "subscribe now sv body rows =
     (case body of
        None \<Rightarrow> (Inl (Http_error 400 ''Invalid JSON body''), rows)
      | Some b \<Rightarrow>
          if falsy (req_email b) then (Inl (Http_error 400 ''Email is required''), rows)
          else if falsy (req_turnstileToken b)
            then (Inl (Http_error 400 ''Turnstile token is required''), rows)
          else
            let normalizedEmail = trim (toLowerCase (the (req_email b))) in
            if \<not> EMAIL_REGEX_test normalizedEmail
              then (Inl (Http_error 400 ''Invalid email format''), rows)
            else
              let sanitizedName = sanitize_name (req_name b);
                  turnstileResult = validateTurnstile sv in
              if \<not> fst turnstileResult
                then (Inl (Http_error 400
                        (case snd turnstileResult of None \<Rightarrow> ''Captcha failed''
                         | Some e \<Rightarrow> if e = [] then ''Captcha failed'' else e)), rows)
              else
                (case find (\<lambda>r. email r = normalizedEmail) rows of
                   Some existing \<Rightarrow>
                     if verified existing \<noteq> 0 \<and> active existing \<noteq> 0
                       then (Inr Already_subscribed, rows)
                     else if verified existing \<noteq> 0 \<and> \<not> active existing \<noteq> 0
                       then (Inr Welcome_back,
                             sql_update (\<lambda>r. sub_id r = sub_id existing) (\<lambda>r. r\<lparr>active := 1\<rparr>) rows)
                     else (Inr You_are_subscribed,
                           sql_update (\<lambda>r. sub_id r = sub_id existing)
                             (\<lambda>r. r\<lparr>verified := 1, verified_at := Some (Current_timestamp now),
                                    active := 1,
                                    name := (case sanitizedName of Some n \<Rightarrow> Some n
                                             | None \<Rightarrow> name r)\<rparr>) rows)
                 | None \<Rightarrow>
                     (case sql_insert now normalizedEmail sanitizedName rows of
                        None \<Rightarrow> (Inl (Http_error 500 ''An unexpected error occurred.''), rows)
                      | Some rows' \<Rightarrow> (Inr You_are_subscribed, rows'))))"

subsection \<open>Verify\<close>

text \<open>\<open>verifyRoute.get\<close>: the row is looked up by its token; an unverified row is marked
  verified and its token is set to \<open>NULL\<close>.\<close>

definition verify :: "nat \<Rightarrow> string option \<Rightarrow> db \<Rightarrow> (http_error + unit) \<times> db" where
  "verify now token rows =
     (if falsy token \<or> length (the token) \<noteq> 32
        then (Inl (Http_error 400 ''Invalid or missing verification token.''), rows)
      else
        (case find (\<lambda>r. verification_token r = token) rows of
           None \<Rightarrow> (Inl (Http_error 404 ''This link is invalid or has expired.''), rows)
         | Some subscriber \<Rightarrow>
             if verified subscriber \<noteq> 0 then (Inr (), rows)
             else (Inr (),
                   sql_update (\<lambda>r. sub_id r = sub_id subscriber)
                     (\<lambda>r. r\<lparr>verified := 1, verification_token := None,
                            verified_at := Some (Unixepoch now)\<rparr>) rows)))"

subsection \<open>Unsubscribe\<close>

text \<open>\<open>generateHmacToken\<close>: the signature of the lower-cased email, each byte rendered as two
  lower-case hexadecimal digits. The primitive \<open>crypto.subtle.sign('HMAC', ...)\<close> with hash
  SHA-256 (key and message through \<open>TextEncoder\<close>) is the parameter \<open>sign\<close>.\<close>

definition hex_digit :: "nat \<Rightarrow> char" where
  "hex_digit n = ''0123456789abcdef'' ! (n mod 16)"

definition hex_byte :: "8 word \<Rightarrow> string" where
  "hex_byte b = [hex_digit (unat b div 16), hex_digit (unat b mod 16)]"

definition generateHmacToken :: "(string \<Rightarrow> string \<Rightarrow> 8 word list) \<Rightarrow> string \<Rightarrow> string \<Rightarrow> string" where
  "generateHmacToken sign secret e = concat (map hex_byte (sign secret (toLowerCase e)))"

text \<open>\<open>validateHmacToken\<close>: after the length check, the loop ORs the XOR of each pair of
  character codes into \<open>result\<close> and never leaves early.\<close>

definition validateHmacToken ::
  "(string \<Rightarrow> string \<Rightarrow> 8 word list) \<Rightarrow> string \<Rightarrow> string \<Rightarrow> string \<Rightarrow> bool" where
  "validateHmacToken sign secret e token =
     (let expectedToken = generateHmacToken sign secret e
      in if length expectedToken \<noteq> length token then False
         else foldl (\<lambda>result (a, b). result OR ((of_char a :: int) XOR of_char b))
                0 (zip expectedToken token) = 0)"

text \<open>\<open>unsubscribeRoute.get\<close>.\<close>

definition unsubscribe ::
  "(string \<Rightarrow> string \<Rightarrow> 8 word list) \<Rightarrow> string \<Rightarrow> string option \<Rightarrow> string option \<Rightarrow> db
     \<Rightarrow> (http_error + unit) \<times> db" where
  "unsubscribe sign HMAC_SECRET e token rows =
     (if falsy e \<or> falsy token then (Inl (Http_error 400 ''Invalid unsubscribe link.''), rows)
      else
        let normalizedEmail = trim (toLowerCase (the e)) in
        if \<not> validateHmacToken sign HMAC_SECRET normalizedEmail (the token)
          then (Inl (Http_error 403 ''Invalid unsubscribe link.''), rows)
        else (Inr (), sql_update (\<lambda>r. email r = normalizedEmail) (\<lambda>r. r\<lparr>active := 0\<rparr>) rows))"

section \<open>Archive index manager\<close>

subsection \<open>Numbers\<close>

text \<open>A \<open>number\<close> field of a report. A JavaScript number is a double: here it is an integer
  that a double holds exactly, \<open>NaN\<close>, one of the two infinities, or \<open>null\<close> once it has been
  through JSON. (\<open>parseInt\<close> yields no fractions; the sign of zero is not kept.)\<close>

datatype json_number = Num int | NaN | Infinity | Minus_Infinity | Null

definition is_digit :: "char \<Rightarrow> bool" where
  "is_digit c = (48 \<le> (of_char c :: nat) \<and> (of_char c :: nat) \<le> 57)"

definition digit_val :: "char \<Rightarrow> int" where
  "digit_val c = int (of_char c) - 48"

definition decimal :: "string \<Rightarrow> int" where
  "decimal ds = foldl (\<lambda>a c. 10 * a + digit_val c) 0 ds"

text \<open>The number of binary digits of a positive integer.\<close>

function bit_length :: "int \<Rightarrow> nat" where
  "bit_length n = (if n \<le> 0 then 0 else Suc (bit_length (n div 2)))"
  by pat_completeness auto
termination
  by (relation "measure nat") auto

declare bit_length.simps [simp del]

text \<open>The double that is nearest to a non-negative integer, ties going to the even
  significand of 53 bits; \<open>None\<close> when the rounded magnitude is beyond the largest
  double.\<close>

definition nearest_double :: "int \<Rightarrow> int option" where
  "nearest_double n =
     (if n < 2 ^ 53 then Some n
      else
        let e = bit_length n - 53;
            q = n div 2 ^ e;
            r = n mod 2 ^ e;
            half = 2 ^ (e - 1);
            q' = (if half < r \<or> (r = half \<and> odd q) then q + 1 else q);
            v = q' * 2 ^ e
        in if 2 ^ 1024 \<le> v then None else Some v)"

text \<open>\<open>parseInt(s, 10)\<close>: leading white space is skipped, one sign is read, and the longest
  run of decimal digits is the number, as the nearest double; without a digit the result
  is \<open>NaN\<close>.\<close>

definition parseInt :: "string \<Rightarrow> json_number" where
  "parseInt s =
     (let t = dropWhile is_space s;
          negative = (t \<noteq> [] \<and> hd t = CHR ''-'');
          u = (if t \<noteq> [] \<and> (hd t = CHR ''+'' \<or> hd t = CHR ''-'') then tl t else t);
          ds = takeWhile is_digit u
      in if ds = [] then NaN
         else
           (case nearest_double (decimal ds) of
              None \<Rightarrow> (if negative then Minus_Infinity else Infinity)
            | Some v \<Rightarrow> Num ((if negative then - 1 else 1) * v)))"

subsection \<open>Data\<close>

record ReportMeta =
  report_id :: string
  date_range_start :: string
  date_range_end :: string
  generated_at :: string
  title :: string
  summary :: string
  r2_key :: string
  days :: json_number
  total_items :: json_number

record ArchiveIndex =
  reports :: "ReportMeta list"
  updated_at :: string

text \<open>\<open>JSON.stringify\<close> followed by parsing: strings and finite numbers come back as they
  were; \<open>NaN\<close> and the infinities come back as \<open>null\<close>.\<close>

fun json_of_number :: "json_number \<Rightarrow> json_number" where
  "json_of_number NaN = Null"
| "json_of_number Infinity = Null"
| "json_of_number Minus_Infinity = Null"
| "json_of_number n = n"

definition json_of_ReportMeta :: "ReportMeta \<Rightarrow> ReportMeta" where
  "json_of_ReportMeta m =
     m\<lparr>days := json_of_number (days m), total_items := json_of_number (total_items m)\<rparr>"

definition json_of_ArchiveIndex :: "ArchiveIndex \<Rightarrow> ArchiveIndex" where
  "json_of_ArchiveIndex index = index\<lparr>reports := map json_of_ReportMeta (reports index)\<rparr>"

text \<open>The bindings of the worker the archive routes use: the key-value namespace (a key
  holds the parsed JSON document), the bucket of report bodies, and the admin secret.\<close>

record Env =
  ARCHIVE_KV :: "string \<rightharpoonup> ArchiveIndex"
  ARCHIVE_R2 :: "string \<rightharpoonup> string"
  ADMIN_API_SECRET :: string

definition ARCHIVE_INDEX_KEY :: string where
  "ARCHIVE_INDEX_KEY = ''archive-index''"

subsection \<open>Helpers of the routes\<close>

definition isAuthorized :: "string option \<Rightarrow> Env \<Rightarrow> bool" where
  "isAuthorized authHeader env =
     (case authHeader of
        None \<Rightarrow> False
      | Some h \<Rightarrow> if take 7 h \<noteq> ''Bearer '' then False else drop 7 h = ADMIN_API_SECRET env)"

definition getArchiveIndex :: "(string \<rightharpoonup> ArchiveIndex) \<Rightarrow> string \<Rightarrow> ArchiveIndex" where
  "getArchiveIndex kv now =
     (case kv ARCHIVE_INDEX_KEY of
        None \<Rightarrow> \<lparr>reports = [], updated_at = now\<rparr>
      | Some d \<Rightarrow> d)"

definition saveArchiveIndex ::
  "(string \<rightharpoonup> ArchiveIndex) \<Rightarrow> ArchiveIndex \<Rightarrow> string \<Rightarrow> (string \<rightharpoonup> ArchiveIndex)" where
  "saveArchiveIndex kv index now =
     kv(ARCHIVE_INDEX_KEY \<mapsto> json_of_ArchiveIndex (index\<lparr>updated_at := now\<rparr>))"

text \<open>\<open>Array.prototype.findIndex\<close>; \<open>None\<close> stands for \<open>-1\<close>.\<close>

fun findIndex :: "('a \<Rightarrow> bool) \<Rightarrow> 'a list \<Rightarrow> nat option" where
  "findIndex P [] = None"
| "findIndex P (x # xs) = (if P x then Some 0 else map_option Suc (findIndex P xs))"

text \<open>Modelled from the spec: \<open>String.prototype.localeCompare\<close> is a built-in whose collation
  is not part of the repository; the spec reads the order of the index as the "lexicographic
  string comparison of the date string", which is the definition here (negative, zero or
  positive). On ISO dates, digits and hyphens, this is also what the collation gives.\<close>

fun localeCompare :: "string \<Rightarrow> string \<Rightarrow> int" where
  "localeCompare [] [] = 0"
| "localeCompare [] (y # ys) = - 1"
| "localeCompare (x # xs) [] = 1"
| "localeCompare (x # xs) (y # ys) =
     (if (of_char x :: nat) < of_char y then - 1
      else if (of_char y :: nat) < of_char x then 1
      else localeCompare xs ys)"

text \<open>\<open>Array.prototype.sort\<close> with a comparison function is stable: an element goes in front
  of the first element it does not compare greater than.\<close>

fun insert_cmp :: "('a \<Rightarrow> 'a \<Rightarrow> int) \<Rightarrow> 'a \<Rightarrow> 'a list \<Rightarrow> 'a list" where
  "insert_cmp cmp x [] = [x]"
| "insert_cmp cmp x (y # ys) = (if cmp x y \<le> 0 then x # y # ys else y # insert_cmp cmp x ys)"

definition sort_cmp :: "('a \<Rightarrow> 'a \<Rightarrow> int) \<Rightarrow> 'a list \<Rightarrow> 'a list" where
  "sort_cmp cmp xs = foldr (insert_cmp cmp) xs []"

subsection \<open>Routes\<close>

text \<open>\<open>GET /archive\<close>.\<close>

definition get_archive :: "string \<Rightarrow> Env \<Rightarrow> ArchiveIndex" where
  "get_archive now env = getArchiveIndex (ARCHIVE_KV env) now"

text \<open>\<open>GET /archive/:id\<close>.\<close>

definition get_report :: "string \<Rightarrow> string \<Rightarrow> Env \<Rightarrow> http_error + string" where
  "get_report now rid env =
     (let index = getArchiveIndex (ARCHIVE_KV env) now in
      case find (\<lambda>r. report_id r = rid) (reports index) of
        None \<Rightarrow> Inl (Http_error 404 ''Report not found'')
      | Some report \<Rightarrow>
          (case ARCHIVE_R2 env (r2_key report) of
             None \<Rightarrow> Inl (Http_error 404 ''Report content not found in storage'')
           | Some html \<Rightarrow> Inr html))"

text \<open>\<open>POST /archive\<close>. The metadata arrives in eight headers, the report in the body.\<close>

record report_headers =
  X_Report_Id :: "string option"
  X_Date_Start :: "string option"
  X_Date_End :: "string option"
  X_Generated_At :: "string option"
  X_Title :: "string option"
  X_Summary :: "string option"
  X_Days :: "string option"
  X_Total_Items :: "string option"

record post_response =
  post_status :: nat
  post_message :: string
  post_data :: ReportMeta

definition post_archive ::
  "string \<Rightarrow> string option \<Rightarrow> report_headers \<Rightarrow> string \<Rightarrow> Env \<Rightarrow> (http_error + post_response) \<times> Env" where
  "post_archive now authHeader h html env =
     (if \<not> isAuthorized authHeader env then (Inl (Http_error 401 ''Unauthorized''), env)
      else if falsy (X_Report_Id h) \<or> falsy (X_Date_Start h) \<or> falsy (X_Date_End h)
              \<or> falsy (X_Generated_At h) \<or> falsy (X_Title h) \<or> falsy (X_Summary h)
              \<or> falsy (X_Days h) \<or> falsy (X_Total_Items h)
        then (Inl (Http_error 400
                ''Missing required headers: X-Report-Id, X-Date-Start, X-Date-End, X-Generated-At, X-Title, X-Summary, X-Days, X-Total-Items''),
              env)
      else if html = [] \<or> length (trim html) = 0
        then (Inl (Http_error 400 ''Request body must contain HTML content''), env)
      else
        let reportId = the (X_Report_Id h);
            r2Key = ''reports/'' @ reportId @ ''.html'';
            reportMeta = \<lparr>report_id = reportId,
                          date_range_start = the (X_Date_Start h),
                          date_range_end = the (X_Date_End h),
                          generated_at = the (X_Generated_At h),
                          title = the (X_Title h),
                          summary = the (X_Summary h),
                          r2_key = r2Key,
                          days = parseInt (the (X_Days h)),
                          total_items = parseInt (the (X_Total_Items h))\<rparr>;
            env1 = env\<lparr>ARCHIVE_R2 := (ARCHIVE_R2 env)(r2Key \<mapsto> html)\<rparr>;
            index = getArchiveIndex (ARCHIVE_KV env1) now;
            existingIndex = findIndex (\<lambda>r. report_id r = reportId) (reports index);
            index1 = (case existingIndex of
                        Some i \<Rightarrow> index\<lparr>reports := (reports index)[i := reportMeta]\<rparr>
                      | None \<Rightarrow> index\<lparr>reports := reports index @ [reportMeta]\<rparr>);
            index2 = index1\<lparr>reports :=
                       sort_cmp (\<lambda>a b. localeCompare (date_range_end b) (date_range_end a))
                         (reports index1)\<rparr>;
            env2 = env1\<lparr>ARCHIVE_KV := saveArchiveIndex (ARCHIVE_KV env1) index2 now\<rparr>
        in (Inr \<lparr>post_status = (if existingIndex \<noteq> None then 200 else 201),
                 post_message = (if existingIndex \<noteq> None then ''Report updated''
                                 else ''Report uploaded''),
                 post_data = json_of_ReportMeta reportMeta\<rparr>,
            env2))"

text \<open>\<open>PATCH /archive/:id\<close>. The body is \<open>None\<close> when it is not a JSON object.\<close>

record patch_body =
  patch_title :: "string option"
  patch_summary :: "string option"

definition patch_archive ::
  "string \<Rightarrow> string option \<Rightarrow> string \<Rightarrow> patch_body option \<Rightarrow> Env \<Rightarrow> (http_error + ReportMeta) \<times> Env" where
  "patch_archive now authHeader rid body env =
     (if \<not> isAuthorized authHeader env then (Inl (Http_error 401 ''Unauthorized''), env)
      else
        case body of
          None \<Rightarrow> (Inl (Http_error 500 ''Failed to update report metadata''), env)
        | Some b \<Rightarrow>
            if falsy (patch_title b) \<and> falsy (patch_summary b)
              then (Inl (Http_error 400
                      ''Request body must contain at least one of: title, summary''), env)
            else
              let index = getArchiveIndex (ARCHIVE_KV env) now in
              case findIndex (\<lambda>r. report_id r = rid) (reports index) of
                None \<Rightarrow> (Inl (Http_error 404 ''Report not found''), env)
              | Some reportIndex \<Rightarrow>
                  let r0 = reports index ! reportIndex;
                      r1 = (if \<not> falsy (patch_title b) then r0\<lparr>title := the (patch_title b)\<rparr>
                            else r0);
                      r2 = (if \<not> falsy (patch_summary b)
                            then r1\<lparr>summary := the (patch_summary b)\<rparr> else r1);
                      index1 = index\<lparr>reports := (reports index)[reportIndex := r2]\<rparr>;
                      env1 = env\<lparr>ARCHIVE_KV := saveArchiveIndex (ARCHIVE_KV env) index1 now\<rparr>
                  in (Inr (json_of_ReportMeta r2), env1))"

text \<open>\<open>DELETE /archive/:id\<close>.\<close>

definition delete_archive ::
  "string \<Rightarrow> string option \<Rightarrow> string \<Rightarrow> Env \<Rightarrow> (http_error + string) \<times> Env" where
  "delete_archive now authHeader rid env =
     (if \<not> isAuthorized authHeader env then (Inl (Http_error 401 ''Unauthorized''), env)
      else
        let index = getArchiveIndex (ARCHIVE_KV env) now in
        case findIndex (\<lambda>r. report_id r = rid) (reports index) of
          None \<Rightarrow> (Inl (Http_error 404 ''Report not found''), env)
        | Some reportIndex \<Rightarrow>
            let report = reports index ! reportIndex;
                env1 = env\<lparr>ARCHIVE_R2 := (ARCHIVE_R2 env)(r2_key report := None)\<rparr>;
                index1 = index\<lparr>reports := take reportIndex (reports index)
                                           @ drop (Suc reportIndex) (reports index)\<rparr>;
                env2 = env1\<lparr>ARCHIVE_KV := saveArchiveIndex (ARCHIVE_KV env1) index1 now\<rparr>
            in (Inr ''Report deleted'', env2))"

subsection \<open>Histories of the archive\<close>

text \<open>The writing requests of the archive, each with the reading of the clock when it is
  served, and the store they leave behind when they run one after the other on a fresh
  deployment (no index saved, no body stored).\<close>

datatype archive_request =
    POST "string option" report_headers string
  | PATCH "string option" string "patch_body option"
  | DELETE "string option" string

fun serve :: "string \<times> archive_request \<Rightarrow> Env \<Rightarrow> Env" where
  "serve (now, POST authHeader h html) env = snd (post_archive now authHeader h html env)"
| "serve (now, PATCH authHeader rid body) env = snd (patch_archive now authHeader rid body env)"
| "serve (now, DELETE authHeader rid) env = snd (delete_archive now authHeader rid env)"

definition fresh_env :: "string \<Rightarrow> Env" where
  "fresh_env secret = \<lparr>ARCHIVE_KV = Map.empty, ARCHIVE_R2 = Map.empty, ADMIN_API_SECRET = secret\<rparr>"

definition run_requests :: "(string \<times> archive_request) list \<Rightarrow> Env \<Rightarrow> Env" where
  "run_requests history env = foldl (\<lambda>e r. serve r e) env history"

definition stored_reports :: "Env \<Rightarrow> ReportMeta list" where
  "stored_reports env =
     (case ARCHIVE_KV env ARCHIVE_INDEX_KEY of None \<Rightarrow> [] | Some index \<Rightarrow> reports index)"

section \<open>Notions used in the statements\<close>

text \<open>The flags of a row are SQL integers; the routes test them for truth. A table has
  boolean flags when every flag is 0 or 1, as every write of the routes leaves them.\<close>

definition flags_boolean :: "db \<Rightarrow> bool" where
  "flags_boolean rows = list_all (\<lambda>r. verified r \<in> {0, 1} \<and> active r \<in> {0, 1}) rows"

text \<open>The hexadecimal rendering of the signature of a message, without the lower-casing
  that \<open>generateHmacToken\<close> applies to its argument.\<close>

definition hmac_sha256_hex :: "(string \<Rightarrow> string \<Rightarrow> 8 word list) \<Rightarrow> string \<Rightarrow> string \<Rightarrow> string" where
  "hmac_sha256_hex sign secret msg = concat (map hex_byte (sign secret msg))"

text \<open>The \<open>reportMeta\<close> object that \<open>POST /archive\<close> builds from the headers: the metadata as
  submitted.\<close>

definition report_of_headers :: "report_headers \<Rightarrow> ReportMeta" where
  "report_of_headers h =
     \<lparr>report_id = the (X_Report_Id h),
      date_range_start = the (X_Date_Start h),
      date_range_end = the (X_Date_End h),
      generated_at = the (X_Generated_At h),
      title = the (X_Title h),
      summary = the (X_Summary h),
      r2_key = ''reports/'' @ the (X_Report_Id h) @ ''.html'',
      days = parseInt (the (X_Days h)),
      total_items = parseInt (the (X_Total_Items h))\<rparr>"

text \<open>The first half of the index update of \<open>POST /archive\<close>: replace the first entry with
  the id of the report, or append the report.\<close>

definition put_entry :: "ReportMeta \<Rightarrow> ReportMeta list \<Rightarrow> ReportMeta list" where
  "put_entry m rs =
     (case findIndex (\<lambda>r. report_id r = report_id m) rs of
        Some i \<Rightarrow> rs[i := m]
      | None \<Rightarrow> rs @ [m])"

text \<open>What \<open>PATCH /archive/:id\<close> does to the entry it finds: a field supplied with a
  non-empty string replaces the stored one.\<close>

definition apply_patch :: "patch_body \<Rightarrow> ReportMeta \<Rightarrow> ReportMeta" where
  "apply_patch b r =
     r\<lparr>title := (if falsy (patch_title b) then title r else the (patch_title b)),
       summary := (if falsy (patch_summary b) then summary r else the (patch_summary b))\<rparr>"

text \<open>The invariant of the stored index: ids are pairwise distinct and every entry is as JSON
  stores it.\<close>

definition archive_inv :: "Env \<Rightarrow> bool" where
  "archive_inv env =
     (distinct (map report_id (stored_reports env))
      \<and> list_all (\<lambda>r. json_of_ReportMeta r = r) (stored_reports env))"

section \<open>Example data\<close>

definition example_token :: string where
  "example_token = ''0123456789abcdef0123456789abcdef''"

definition pending_row :: subscriber where
  "pending_row = \<lparr>sub_id = 1, email = ''a@x.com'', name = Some ''Alice'',
                   verification_token = Some example_token, verified = 0, active = 1,
                   created_at = 100, verified_at = None\<rparr>"

text \<open>A stand-in for the signing primitive, 32 bytes long as a SHA-256 signature is.\<close>

definition example_sign :: "string \<Rightarrow> string \<Rightarrow> 8 word list" where
  "example_sign k m = replicate 32 (of_nat (length k + length m))"

definition example_request :: subscribe_request where
  "example_request = \<lparr>req_email = Some '' A@X.com'', req_name = Some '' Bob '',
                       req_turnstileToken = Some ''captcha-response''\<rparr>"

text \<open>Requests to the archive: an admin secret with its header, a body, and the headers of
  four reports (two of them end on the same day; one has a day count that is not a
  number).\<close>

definition example_secret :: string where "example_secret = ''s3cret''"

definition example_auth :: "string option" where "example_auth = Some ''Bearer s3cret''"

definition example_html :: string where "example_html = ''<html>report</html>''"

definition headers_dec01 :: report_headers where
  "headers_dec01 = \<lparr>X_Report_Id = Some ''r-dec01'', X_Date_Start = Some ''2025-11-25'',
      X_Date_End = Some ''2025-12-01'', X_Generated_At = Some ''2025-12-01T08:00:00Z'',
      X_Title = Some ''Digest one'', X_Summary = Some ''First week'',
      X_Days = Some ''7'', X_Total_Items = Some ''42''\<rparr>"

definition headers_dec05 :: report_headers where
  "headers_dec05 = \<lparr>X_Report_Id = Some ''r-dec05'', X_Date_Start = Some ''2025-12-02'',
      X_Date_End = Some ''2025-12-05'', X_Generated_At = Some ''2025-12-05T08:00:00Z'',
      X_Title = Some ''Digest two'', X_Summary = Some ''Second week'',
      X_Days = Some ''4'', X_Total_Items = Some ''17''\<rparr>"

definition headers_dec05_late :: report_headers where
  "headers_dec05_late = \<lparr>X_Report_Id = Some ''r-dec05-late'', X_Date_Start = Some ''2025-12-04'',
      X_Date_End = Some ''2025-12-05'', X_Generated_At = Some ''2025-12-05T20:00:00Z'',
      X_Title = Some ''Digest three'', X_Summary = Some ''Evening run'',
      X_Days = Some ''2'', X_Total_Items = Some ''9''\<rparr>"

definition headers_bad_days :: report_headers where
  "headers_bad_days = \<lparr>X_Report_Id = Some ''r-bad'', X_Date_Start = Some ''2025-12-06'',
      X_Date_End = Some ''2025-12-12'', X_Generated_At = Some ''2025-12-12T08:00:00Z'',
      X_Title = Some ''Digest four'', X_Summary = Some ''Third week'',
      X_Days = Some ''seven'', X_Total_Items = Some ''12''\<rparr>"

text \<open>The second report again, now ending on the day the first one ends; and a report
  whose day count is beyond the integers that a double counts one by one.\<close>

definition headers_dec05_moved :: report_headers where
  "headers_dec05_moved = \<lparr>X_Report_Id = Some ''r-dec05'', X_Date_Start = Some ''2025-11-25'',
      X_Date_End = Some ''2025-12-01'', X_Generated_At = Some ''2025-12-06T08:00:00Z'',
      X_Title = Some ''Digest two'', X_Summary = Some ''Second week, redated'',
      X_Days = Some ''7'', X_Total_Items = Some ''17''\<rparr>"

definition headers_huge_days :: report_headers where
  "headers_huge_days = \<lparr>X_Report_Id = Some ''r-huge'', X_Date_Start = Some ''2025-12-06'',
      X_Date_End = Some ''2025-12-12'', X_Generated_At = Some ''2025-12-12T09:00:00Z'',
      X_Title = Some ''Digest five'', X_Summary = Some ''Fourth week'',
      X_Days = Some ''9007199254740993'', X_Total_Items = Some ''12''\<rparr>"

text \<open>A store whose index lists a report with no body in the bucket.\<close>

definition dangling_env :: Env where
  "dangling_env =
     \<lparr>ARCHIVE_KV = [ARCHIVE_INDEX_KEY \<mapsto>
         \<lparr>reports = [json_of_ReportMeta (report_of_headers headers_dec01)], updated_at = ''t1''\<rparr>],
      ARCHIVE_R2 = Map.empty,
      ADMIN_API_SECRET = example_secret\<rparr>"

definition example_patch :: patch_body where
  "example_patch = \<lparr>patch_title = Some ''Digest one, revised'', patch_summary = None\<rparr>"

text \<open>The store after the first example report has been put.\<close>

definition after_dec01 :: Env where
  "after_dec01 = run_requests [(''t1'', POST example_auth headers_dec01 example_html)]
                   (fresh_env example_secret)"

section \<open>Strings: lemmas\<close>

lemma lower_char_idem: "lower_char (lower_char c) = lower_char c"
proof (cases "is_upper_code (of_char c)")
  case True
  then have small: "(of_char c :: nat) + 32 < 256"
    by (auto simp: is_upper_code_def)
  have shifted: "(of_char (lower_char c) :: nat) = of_char c + 32"
    using True small by (simp add: lower_char_def of_char_of)
  have "\<not> is_upper_code (of_char (lower_char c))"
    unfolding shifted using True by (auto simp: is_upper_code_def)
  then show ?thesis
    by (simp add: lower_char_def[of "lower_char c"])
next
  case False
  then show ?thesis by (simp add: lower_char_def)
qed

lemma set_trim: "set (trim s) \<subseteq> set s"
proof -
  have "set (trim s) \<subseteq> set (dropWhile is_space s)"
    unfolding trim_def using set_dropWhileD by fastforce
  also have "\<dots> \<subseteq> set s" using set_dropWhileD by fastforce
  finally show ?thesis .
qed

lemma toLowerCase_trim_toLowerCase:
  "toLowerCase (trim (toLowerCase s)) = trim (toLowerCase s)"
proof -
  have "\<forall>c \<in> set (trim (toLowerCase s)). lower_char c = c"
    using set_trim[of "toLowerCase s"] by (auto simp: toLowerCase_def lower_char_idem)
  then show ?thesis
    unfolding toLowerCase_def[of "trim (toLowerCase s)"] by (simp add: map_idI)
qed

lemma EMAIL_REGEX_test_nonempty: "EMAIL_REGEX_test s \<Longrightarrow> s \<noteq> []"
  by (auto simp: EMAIL_REGEX_test_def)

lemma normalized_nonempty: "EMAIL_REGEX_test (trim (toLowerCase e)) \<Longrightarrow> \<not> falsy (Some e)"
  by (cases e) (auto simp: EMAIL_REGEX_test_def trim_def toLowerCase_def)

text \<open>The shape check reads the regular expression as it is written: a string passes
  exactly when it is \<open>a @ b . c\<close> with three non-empty parts free of white space and of
  \<open>@\<close>.\<close>

lemma EMAIL_REGEX_test_split:
  assumes t: "EMAIL_REGEX_test s"
  shows "\<exists>a b c. s = a @ CHR ''@'' # b @ CHR ''.'' # c \<and> a \<noteq> [] \<and> b \<noteq> [] \<and> c \<noteq> []
        \<and> (\<forall>x \<in> set (a @ b @ c). \<not> is_space x \<and> x \<noteq> CHR ''@'')"
proof -
  define a where "a = takeWhile (\<lambda>c. c \<noteq> CHR ''@'') s"
  define d where "d = drop (Suc (length a)) s"
  have all: "a \<noteq> [] \<and> length a < length s \<and> \<not> list_ex is_space s
      \<and> \<not> list_ex (\<lambda>c. c = CHR ''@'') d \<and> list_ex (\<lambda>c. c = CHR ''.'') (butlast (tl d))"
    using t unfolding EMAIL_REGEX_test_def a_def d_def Let_def by simp
  have a_ne: "a \<noteq> []" and a_lt: "length a < length s" using all by simp_all
  have nosp: "\<forall>x \<in> set s. \<not> is_space x" using all by (simp add: list_ex_iff)
  have noat: "\<forall>x \<in> set d. x \<noteq> CHR ''@''" using all by (auto simp: list_ex_iff)
  have dot: "CHR ''.'' \<in> set (butlast (tl d))" using all by (simp add: list_ex_iff)
  have "\<not> (s ! length a \<noteq> CHR ''@'')"
    unfolding a_def by (rule nth_length_takeWhile) (use a_lt in \<open>simp add: a_def\<close>)
  then have at: "s ! length a = CHR ''@''" by simp
  have a_take: "take (length a) s = a"
    unfolding a_def by (simp add: takeWhile_eq_take[symmetric])
  have s_split: "s = a @ CHR ''@'' # d"
    using id_take_nth_drop[OF a_lt] at a_take by (simp add: d_def)
  have a_noat: "\<forall>x \<in> set a. x \<noteq> CHR ''@''"
    unfolding a_def using set_takeWhileD by fastforce
  obtain y d' where d: "d = y # d'" using dot by (cases d) simp_all
  then have "CHR ''.'' \<in> set (butlast d')" using dot by simp
  then obtain pre post where bl: "butlast d' = pre @ CHR ''.'' # post"
    using split_list by fastforce
  then have "d' \<noteq> []" by (cases d') simp_all
  then have "butlast d' @ [last d'] = d'" by simp
  then have "d' = pre @ CHR ''.'' # (post @ [last d'])" unfolding bl by simp
  then obtain c0 where d': "d' = pre @ CHR ''.'' # c0" and c0: "c0 \<noteq> []"
    by blast
  have whole: "s = a @ CHR ''@'' # (y # pre) @ CHR ''.'' # c0"
    by (simp add: s_split d d')
  have sets: "set (a @ (y # pre) @ c0) \<subseteq> set s" "set ((y # pre) @ c0) \<subseteq> set d"
    by (auto simp: whole d d')
  have good: "\<forall>x \<in> set (a @ (y # pre) @ c0). \<not> is_space x \<and> x \<noteq> CHR ''@''"
  proof
    fix x assume x: "x \<in> set (a @ (y # pre) @ c0)"
    then have in_s: "x \<in> set s" using sets(1) by blast
    have "x \<in> set a \<or> x \<in> set d" using x sets(2) by auto
    then show "\<not> is_space x \<and> x \<noteq> CHR ''@''" using in_s nosp a_noat noat by blast
  qed
  show ?thesis
    by (intro exI[of _ a] exI[of _ "y # pre"] exI[of _ c0] conjI whole a_ne c0 good) simp
qed

lemma EMAIL_REGEX_test_join:
  assumes s: "s = a @ CHR ''@'' # b @ CHR ''.'' # c"
      and ne: "a \<noteq> []" "b \<noteq> []" "c \<noteq> []"
      and ok: "\<forall>x \<in> set (a @ b @ c). \<not> is_space x \<and> x \<noteq> CHR ''@''"
  shows "EMAIL_REGEX_test s"
proof -
  have a_ok: "\<forall>x \<in> set a. x \<noteq> CHR ''@''" using ok by simp
  have tw: "takeWhile (\<lambda>c. c \<noteq> CHR ''@'') s = a"
    unfolding s using a_ok by (simp add: takeWhile_append2)
  have dr: "drop (Suc (length a)) s = b @ CHR ''.'' # c"
    unfolding s by simp
  have sp_at: "\<not> is_space CHR ''@''" and sp_dot: "\<not> is_space CHR ''.''"
    by (simp_all add: is_space_def)
  have nosp: "\<not> list_ex is_space s"
    unfolding s using ok sp_at sp_dot by (auto simp: list_ex_iff)
  have noat: "\<not> list_ex (\<lambda>c. c = CHR ''@'') (b @ CHR ''.'' # c)"
    using ok by (auto simp: list_ex_iff)
  have "butlast (tl (b @ CHR ''.'' # c)) = tl b @ CHR ''.'' # butlast c"
    using ne by (cases b) (simp_all add: butlast_append)
  then have dot: "list_ex (\<lambda>c. c = CHR ''.'') (butlast (tl (b @ CHR ''.'' # c)))"
    by (simp add: list_ex_iff)
  have len: "length a < length s" unfolding s by simp
  show ?thesis
    unfolding EMAIL_REGEX_test_def Let_def tw dr
    using ne(1) len nosp noat dot by simp
qed

lemma EMAIL_REGEX_test_iff:
  "EMAIL_REGEX_test s =
     (\<exists>a b c. s = a @ CHR ''@'' # b @ CHR ''.'' # c \<and> a \<noteq> [] \<and> b \<noteq> [] \<and> c \<noteq> []
        \<and> (\<forall>x \<in> set (a @ b @ c). \<not> is_space x \<and> x \<noteq> CHR ''@''))"
proof
  assume "EMAIL_REGEX_test s"
  then show "\<exists>a b c. s = a @ CHR ''@'' # b @ CHR ''.'' # c \<and> a \<noteq> [] \<and> b \<noteq> [] \<and> c \<noteq> []
        \<and> (\<forall>x \<in> set (a @ b @ c). \<not> is_space x \<and> x \<noteq> CHR ''@'')"
    by (rule EMAIL_REGEX_test_split)
next
  assume "\<exists>a b c. s = a @ CHR ''@'' # b @ CHR ''.'' # c \<and> a \<noteq> [] \<and> b \<noteq> [] \<and> c \<noteq> []
        \<and> (\<forall>x \<in> set (a @ b @ c). \<not> is_space x \<and> x \<noteq> CHR ''@'')"
  then show "EMAIL_REGEX_test s"
    by (elim exE conjE) (rule EMAIL_REGEX_test_join, assumption+)
qed

section \<open>The comparison loop of the HMAC check\<close>

lemma xor_int_eq_0_iff: "((a::int) XOR b = 0) = (a = b)"
proof
  assume h: "a XOR b = 0"
  have "a = (a XOR b) XOR b" by (simp add: xor.assoc)
  then show "a = b" using h by simp
qed simp

lemma fold_or_xor:
  "length xs = length ys \<Longrightarrow>
   (foldl (\<lambda>result (a, b). result OR ((of_char a :: int) XOR of_char b)) acc (zip xs ys) = 0)
     = (acc = 0 \<and> xs = ys)"
proof (induction xs ys arbitrary: acc rule: list_induct2)
  case Nil
  then show ?case by simp
next
  case (Cons x xs y ys)
  show ?case
    by (simp add: Cons.IH or_eq_0_iff xor_int_eq_0_iff conj_ac)
qed

section \<open>The subscribers table: lemmas\<close>

lemma find_sql_update_keep:
  assumes "\<And>r. P (upd r) = P r"
  shows "find P (sql_update cond upd rows) = map_option (\<lambda>r. if cond r then upd r else r) (find P rows)"
  using assms by (induction rows) (auto simp: sql_update_def)

lemma find_None_iff_list_ex: "(find P rows = None) = (\<not> list_ex P rows)"
  by (induction rows) auto

lemma find_append_new: "find P rows = None \<Longrightarrow> P x \<Longrightarrow> find P (rows @ [x]) = Some x"
  by (induction rows) (auto split: if_splits)

lemma find_Some_props: "find P rows = Some r \<Longrightarrow> P r \<and> r \<in> set rows"
  by (induction rows) (auto split: if_splits)

lemma find_after_verify:
  "find (\<lambda>r. verification_token r = Some t)
     (sql_update (\<lambda>r. sub_id r = i) (\<lambda>r. r\<lparr>verified := 1, verification_token := None, verified_at := v\<rparr>) rows)
   = find (\<lambda>r. verification_token r = Some t \<and> sub_id r \<noteq> i) rows"
  by (induction rows) (auto simp: sql_update_def)

section \<open>Verify\<close>

text \<open>
  C1 (as amended). For every row that is unverified and is the one the lookup by token \<open>t\<close>
  finds, \<open>Verify(t)\<close> succeeds, marks the row verified and clears its token. The token is
  single-use: a second \<open>Verify(t)\<close> fails with 404 and changes nothing, unless a row with
  another id still holds the same token (then it succeeds on that row).
\<close>

theorem verify_token_single_use:
  assumes len: "length t = 32"
      and holds: "find (\<lambda>r. verification_token r = Some t) rows = Some r0"
      and unverified: "verified r0 = 0"
  shows "fst (verify n1 (Some t) rows) = Inr ()
       \<and> r0\<lparr>verified := 1, verification_token := None, verified_at := Some (Unixepoch n1)\<rparr>
            \<in> set (snd (verify n1 (Some t) rows))
       \<and> (if list_ex (\<lambda>r. verification_token r = Some t \<and> sub_id r \<noteq> sub_id r0) rows
          then fst (verify n2 (Some t) (snd (verify n1 (Some t) rows))) = Inr ()
          else verify n2 (Some t) (snd (verify n1 (Some t) rows))
               = (Inl (Http_error 404 ''This link is invalid or has expired.''),
                  snd (verify n1 (Some t) rows)))"
proof -
  have ne: "t \<noteq> []" using len by auto
  have first: "verify n1 (Some t) rows =
      (Inr (), sql_update (\<lambda>r. sub_id r = sub_id r0)
                 (\<lambda>r. r\<lparr>verified := 1, verification_token := None,
                        verified_at := Some (Unixepoch n1)\<rparr>) rows)"
    using ne len holds unverified by (simp add: verify_def)
  have mem: "r0 \<in> set rows" using holds find_Some_props by fastforce
  have c2: "r0\<lparr>verified := 1, verification_token := None, verified_at := Some (Unixepoch n1)\<rparr>
            \<in> set (snd (verify n1 (Some t) rows))"
    unfolding first using mem by (force simp: sql_update_def)
  have c3: "(if list_ex (\<lambda>r. verification_token r = Some t \<and> sub_id r \<noteq> sub_id r0) rows
          then fst (verify n2 (Some t) (snd (verify n1 (Some t) rows))) = Inr ()
          else verify n2 (Some t) (snd (verify n1 (Some t) rows))
               = (Inl (Http_error 404 ''This link is invalid or has expired.''),
                  snd (verify n1 (Some t) rows)))"
  proof (cases "find (\<lambda>r. verification_token r = Some t \<and> sub_id r \<noteq> sub_id r0) rows")
    case None
    then show ?thesis
      unfolding first using ne len
      by (simp add: verify_def[of n2] find_after_verify find_None_iff_list_ex[symmetric])
  next
    case (Some other)
    then have "list_ex (\<lambda>r. verification_token r = Some t \<and> sub_id r \<noteq> sub_id r0) rows"
      using find_None_iff_list_ex[of "\<lambda>r. verification_token r = Some t \<and> sub_id r \<noteq> sub_id r0" rows]
      by simp
    then show ?thesis
      unfolding first using ne len Some
      by (simp add: verify_def[of n2] find_after_verify)
  qed
  show ?thesis using first c2 c3 by simp
qed

theorem verify_token_single_use_witness:
  "fst (verify 200 (Some example_token) [pending_row]) = Inr ()
   \<and> verify 300 (Some example_token) (snd (verify 200 (Some example_token) [pending_row]))
       = (Inl (Http_error 404 ''This link is invalid or has expired.''),
          [pending_row\<lparr>verified := 1, verification_token := None, verified_at := Some (Unixepoch 200)\<rparr>])"
proof -
  have len: "length example_token = 32" by (simp add: example_token_def)
  have holds: "find (\<lambda>r. verification_token r = Some example_token) [pending_row] = Some pending_row"
    by (simp add: pending_row_def)
  have unverified: "verified pending_row = 0" by (simp add: pending_row_def)
  have rows': "snd (verify 200 (Some example_token) [pending_row])
      = [pending_row\<lparr>verified := 1, verification_token := None, verified_at := Some (Unixepoch 200)\<rparr>]"
    by (simp add: verify_def sql_update_def pending_row_def example_token_def)
  show ?thesis
    using verify_token_single_use[OF len holds unverified, of 200 300] rows'
    by (simp add: pending_row_def)
qed

text \<open>
  C1 as stated fails: the pending row of the example is verified by the first call, and the
  second call with the same token is answered 404.
\<close>

theorem verify_second_call_counterexample:
  "fst (verify 200 (Some example_token) [pending_row]) = Inr ()
   \<and> fst (verify 300 (Some example_token) (snd (verify 200 (Some example_token) [pending_row])))
       = Inl (Http_error 404 ''This link is invalid or has expired.'')"
  by (simp add: verify_def sql_update_def pending_row_def example_token_def)

section \<open>Subscribe\<close>


lemma subscribe_valid_unfold:
  assumes "req_email b = Some e" and "EMAIL_REGEX_test (trim (toLowerCase e))"
      and "\<not> falsy (req_turnstileToken b)" and "fst (validateTurnstile sv)"
  shows "subscribe now sv (Some b) rows =
     (case find (\<lambda>r. email r = trim (toLowerCase e)) rows of
        Some existing \<Rightarrow>
          if verified existing \<noteq> 0 \<and> active existing \<noteq> 0 then (Inr Already_subscribed, rows)
          else if verified existing \<noteq> 0
            then (Inr Welcome_back,
                  sql_update (\<lambda>r. sub_id r = sub_id existing) (\<lambda>r. r\<lparr>active := 1\<rparr>) rows)
          else (Inr You_are_subscribed,
                sql_update (\<lambda>r. sub_id r = sub_id existing)
                  (\<lambda>r. r\<lparr>verified := 1, verified_at := Some (Current_timestamp now), active := 1,
                         name := (case sanitize_name (req_name b) of Some n \<Rightarrow> Some n
                                  | None \<Rightarrow> name r)\<rparr>) rows)
      | None \<Rightarrow>
          (Inr You_are_subscribed,
           rows @ [\<lparr>sub_id = next_rowid rows, email = trim (toLowerCase e),
                    name = sanitize_name (req_name b), verification_token = None,
                    verified = 1, active = 1, created_at = now,
                    verified_at = Some (Current_timestamp now)\<rparr>]))"
proof -
  have ne: "\<not> falsy (req_email b)"
    using assms(1,2) normalized_nonempty by simp
  show ?thesis
  proof (cases "find (\<lambda>r. email r = trim (toLowerCase e)) rows")
    case None
    then have "\<not> list_ex (\<lambda>r. email r = trim (toLowerCase e)) rows"
      by (simp add: find_None_iff_list_ex)
    then show ?thesis
      using ne assms None by (simp add: subscribe_def sql_insert_def)
  next
    case (Some existing)
    then show ?thesis
      using ne assms by (simp add: subscribe_def)
  qed
qed

lemma subscribe_once:
  assumes "req_email b = Some e" and "EMAIL_REGEX_test (trim (toLowerCase e))"
      and "\<not> falsy (req_turnstileToken b)" and "fst (validateTurnstile sv)"
  shows "\<exists>m r. fst (subscribe now sv (Some b) rows) = Inr m
           \<and> find (\<lambda>r. email r = trim (toLowerCase e)) (snd (subscribe now sv (Some b) rows)) = Some r
           \<and> verified r \<noteq> 0 \<and> active r \<noteq> 0
           \<and> (flags_boolean rows \<longrightarrow> verified r = 1 \<and> active r = 1)"
proof (cases "find (\<lambda>r. email r = trim (toLowerCase e)) rows")
  case None
  then show ?thesis
    unfolding subscribe_valid_unfold[OF assms]
    by (simp add: find_append_new)
next
  case (Some existing)
  have mem: "existing \<in> set rows" using Some find_Some_props by fastforce
  show ?thesis
    unfolding subscribe_valid_unfold[OF assms]
    using Some mem
    by (auto simp: find_sql_update_keep flags_boolean_def list_all_iff)
qed

lemma sql_update_nth:
  "i < length rows \<Longrightarrow> sql_update cond upd rows ! i = (if cond (rows ! i) then upd (rows ! i) else rows ! i)"
  by (simp add: sql_update_def)

lemma length_sql_update: "length (sql_update cond upd rows) = length rows"
  by (simp add: sql_update_def)

text \<open>
  C3. For every email of valid shape (the normalised email passes the shape check), two
  \<open>Subscribe\<close> calls with that email, each with a captcha token and a passing captcha, both
  succeed; the second call finds the row subscribed and changes nothing, and the row of
  that email is then verified and active (the flags are non-zero, and they are 1 when the
  flags of the table were 0 or 1 before).
\<close>

theorem subscribe_twice_idempotent:
  assumes e1: "req_email b1 = Some e" and e2: "req_email b2 = Some e"
      and shape: "EMAIL_REGEX_test (trim (toLowerCase e))"
      and t1: "\<not> falsy (req_turnstileToken b1)" and t2: "\<not> falsy (req_turnstileToken b2)"
      and c1: "fst (validateTurnstile sv1)" and c2: "fst (validateTurnstile sv2)"
  shows "\<exists>m1 r. fst (subscribe n1 sv1 (Some b1) rows) = Inr m1
           \<and> subscribe n2 sv2 (Some b2) (snd (subscribe n1 sv1 (Some b1) rows))
               = (Inr Already_subscribed, snd (subscribe n1 sv1 (Some b1) rows))
           \<and> find (\<lambda>r. email r = trim (toLowerCase e))
                (snd (subscribe n2 sv2 (Some b2) (snd (subscribe n1 sv1 (Some b1) rows)))) = Some r
           \<and> verified r \<noteq> 0 \<and> active r \<noteq> 0
           \<and> (flags_boolean rows \<longrightarrow> verified r = 1 \<and> active r = 1)"
proof -
  obtain m1 r where first: "fst (subscribe n1 sv1 (Some b1) rows) = Inr m1"
    and found: "find (\<lambda>r. email r = trim (toLowerCase e)) (snd (subscribe n1 sv1 (Some b1) rows)) = Some r"
    and flags: "verified r \<noteq> 0" "active r \<noteq> 0" "flags_boolean rows \<longrightarrow> verified r = 1 \<and> active r = 1"
    using subscribe_once[OF e1 shape t1 c1, of n1 rows] by blast
  have second: "subscribe n2 sv2 (Some b2) (snd (subscribe n1 sv1 (Some b1) rows))
               = (Inr Already_subscribed, snd (subscribe n1 sv1 (Some b1) rows))"
    unfolding subscribe_valid_unfold[OF e2 shape t2 c2, of n2 "snd (subscribe n1 sv1 (Some b1) rows)"]
    using found flags by simp
  show ?thesis
    using first second found flags by auto
qed

theorem subscribe_twice_idempotent_witness:
  "fst (subscribe 500 (Verdict True None) (Some example_request) [pending_row]) = Inr You_are_subscribed
   \<and> fst (subscribe 600 (Verdict True None) (Some example_request)
            (snd (subscribe 500 (Verdict True None) (Some example_request) [pending_row])))
       = Inr Already_subscribed
   \<and> map (\<lambda>r. (email r, verified r, active r))
        (snd (subscribe 600 (Verdict True None) (Some example_request)
            (snd (subscribe 500 (Verdict True None) (Some example_request) [pending_row]))))
       = [(''a@x.com'', 1, 1)]"
proof -
  have norm: "trim (toLowerCase '' A@X.com'') = ''a@x.com''"
    by code_simp
  have e: "req_email example_request = Some '' A@X.com''" by (simp add: example_request_def)
  have shape: "EMAIL_REGEX_test (trim (toLowerCase '' A@X.com''))"
    unfolding norm by (simp add: EMAIL_REGEX_test_def is_space_def)
  have t: "\<not> falsy (req_turnstileToken example_request)" by (simp add: example_request_def)
  have c: "fst (validateTurnstile (Verdict True None))" by simp
  have first: "subscribe 500 (Verdict True None) (Some example_request) [pending_row]
      = (Inr You_are_subscribed,
         [pending_row\<lparr>verified := 1, verified_at := Some (Current_timestamp 500), active := 1,
                      name := Some ''Bob''\<rparr>])"
    unfolding subscribe_valid_unfold[OF e shape t c] norm
    by (simp add: pending_row_def sql_update_def sanitize_name_def example_request_def trim_def is_space_def)
  show ?thesis
    using subscribe_twice_idempotent[OF e e shape t t c c, of 500 "[pending_row]" 600]
    unfolding first by (auto simp: pending_row_def norm)
qed

text \<open>
  C5 (as amended). For every \<open>Subscribe\<close> call that finds an existing unverified row (valid
  email, passing captcha), the row gets \<open>verified = 1\<close>, \<open>active = 1\<close> and
  \<open>verified_at = now\<close>; its name becomes the provided name whenever one is provided
  (non-empty after trimming and cutting to 100 characters), whatever the stored name was,
  and the stored name is kept only when no name is provided. Its other columns and the rows
  with another id are unchanged.
\<close>

theorem subscribe_unverified_row:
  assumes e: "req_email b = Some e"
      and shape: "EMAIL_REGEX_test (trim (toLowerCase e))"
      and t: "\<not> falsy (req_turnstileToken b)"
      and c: "fst (validateTurnstile sv)"
      and found: "find (\<lambda>r. email r = trim (toLowerCase e)) rows = Some r0"
      and unverified: "verified r0 = 0"
  shows "fst (subscribe now sv (Some b) rows) = Inr You_are_subscribed
       \<and> find (\<lambda>r. email r = trim (toLowerCase e)) (snd (subscribe now sv (Some b) rows))
           = Some (r0\<lparr>verified := 1, active := 1, verified_at := Some (Current_timestamp now),
                      name := (case sanitize_name (req_name b) of
                                 None \<Rightarrow> name r0 | Some n \<Rightarrow> Some n)\<rparr>)
       \<and> length (snd (subscribe now sv (Some b) rows)) = length rows
       \<and> (\<forall>i < length rows. sub_id (rows ! i) \<noteq> sub_id r0 \<longrightarrow>
             snd (subscribe now sv (Some b) rows) ! i = rows ! i)"
proof -
  have run: "subscribe now sv (Some b) rows =
      (Inr You_are_subscribed,
       sql_update (\<lambda>r. sub_id r = sub_id r0)
         (\<lambda>r. r\<lparr>verified := 1, verified_at := Some (Current_timestamp now), active := 1,
                name := (case sanitize_name (req_name b) of Some n \<Rightarrow> Some n
                         | None \<Rightarrow> name r)\<rparr>) rows)"
    unfolding subscribe_valid_unfold[OF e shape t c] using found unverified by simp
  have c1: "fst (subscribe now sv (Some b) rows) = Inr You_are_subscribed"
    unfolding run by simp
  have c2: "find (\<lambda>r. email r = trim (toLowerCase e)) (snd (subscribe now sv (Some b) rows))
           = Some (r0\<lparr>verified := 1, active := 1, verified_at := Some (Current_timestamp now),
                      name := (case sanitize_name (req_name b) of
                                 None \<Rightarrow> name r0 | Some n \<Rightarrow> Some n)\<rparr>)"
    unfolding run using found by (simp add: find_sql_update_keep)
  have c3: "length (snd (subscribe now sv (Some b) rows)) = length rows"
    unfolding run by (simp add: length_sql_update)
  have c4: "\<forall>i < length rows. sub_id (rows ! i) \<noteq> sub_id r0 \<longrightarrow>
             snd (subscribe now sv (Some b) rows) ! i = rows ! i"
    unfolding run by (simp add: sql_update_nth)
  show ?thesis using c1 c2 c3 c4 by blast
qed

theorem subscribe_unverified_row_witness:
  "fst (subscribe 500 (Verdict True None) (Some example_request) [pending_row]) = Inr You_are_subscribed
   \<and> find (\<lambda>r. email r = ''a@x.com'')
        (snd (subscribe 500 (Verdict True None) (Some example_request) [pending_row]))
       = Some (pending_row\<lparr>verified := 1, active := 1,
                 verified_at := Some (Current_timestamp 500), name := Some ''Bob''\<rparr>)"
proof -
  have norm: "trim (toLowerCase '' A@X.com'') = ''a@x.com''" by code_simp
  have bob: "sanitize_name (Some '' Bob '') = Some ''Bob''" by code_simp
  have e: "req_email example_request = Some '' A@X.com''" by (simp add: example_request_def)
  have shape: "EMAIL_REGEX_test (trim (toLowerCase '' A@X.com''))"
    unfolding norm by code_simp
  have t: "\<not> falsy (req_turnstileToken example_request)" by (simp add: example_request_def)
  have c: "fst (validateTurnstile (Verdict True None))" by simp
  have found: "find (\<lambda>r. email r = trim (toLowerCase '' A@X.com'')) [pending_row] = Some pending_row"
    unfolding norm by (simp add: pending_row_def)
  have unverified: "verified pending_row = 0" by (simp add: pending_row_def)
  have nm: "req_name example_request = Some '' Bob ''" by (simp add: example_request_def)
  show ?thesis
    using subscribe_unverified_row[OF e shape t c found unverified, of 500]
    by (simp add: norm nm bob)
qed

text \<open>
  C5 as stated fails: the stored name \<open>Alice\<close> of the unverified row is replaced by the
  provided name \<open>Bob\<close>.
\<close>

theorem subscribe_overwrites_name_counterexample:
  "name pending_row = Some ''Alice''
   \<and> verified pending_row = 0
   \<and> map name (snd (subscribe 500 (Verdict True None) (Some example_request) [pending_row]))
       = [Some ''Bob'']"
proof -
  have norm: "trim (toLowerCase '' A@X.com'') = ''a@x.com''" by code_simp
  have bob: "sanitize_name (Some '' Bob '') = Some ''Bob''" by code_simp
  have shape: "EMAIL_REGEX_test ''a@x.com''" by code_simp
  show ?thesis
    by (simp add: subscribe_def example_request_def norm bob shape pending_row_def sql_update_def)
qed

section \<open>Unsubscribe\<close>


lemma validateHmacToken_eq:
  "validateHmacToken sign secret (trim (toLowerCase e)) t
     = (t = hmac_sha256_hex sign secret (trim (toLowerCase e)))"
proof (cases "length (generateHmacToken sign secret (trim (toLowerCase e))) = length t")
  case True
  show ?thesis
    using fold_or_xor[OF True, of 0] 
    by (auto simp: validateHmacToken_def Let_def True generateHmacToken_def hmac_sha256_hex_def
          toLowerCase_trim_toLowerCase)
next
  case False
  then show ?thesis
    by (auto simp: validateHmacToken_def Let_def generateHmacToken_def hmac_sha256_hex_def
          toLowerCase_trim_toLowerCase)
qed

text \<open>
  C2. \<open>Unsubscribe(email, token)\<close> fails and leaves every row as it was when a parameter is
  missing or empty (400) and when the token differs from the hexadecimal HMAC of the
  lower-cased, trimmed email under the secret (403 for non-empty parameters); the comparison
  loop decides exactly the equality of the two strings. When the token of a non-empty email
  is that HMAC, the call succeeds and sets \<open>active = 0\<close> in the rows with the normalised
  email, and it succeeds without any change when no row has it.
\<close>

theorem unsubscribe_requires_valid_hmac:
  "(falsy eo \<or> falsy tok \<longrightarrow>
      unsubscribe sign secret eo tok rows = (Inl (Http_error 400 ''Invalid unsubscribe link.''), rows))
   \<and> (t \<noteq> hmac_sha256_hex sign secret (trim (toLowerCase e)) \<longrightarrow>
        (\<exists>err. unsubscribe sign secret (Some e) (Some t) rows = (Inl err, rows)))
   \<and> (e \<noteq> [] \<and> t \<noteq> [] \<and> t \<noteq> hmac_sha256_hex sign secret (trim (toLowerCase e)) \<longrightarrow>
        unsubscribe sign secret (Some e) (Some t) rows
          = (Inl (Http_error 403 ''Invalid unsubscribe link.''), rows))
   \<and> (e \<noteq> [] \<and> t \<noteq> [] \<and> t = hmac_sha256_hex sign secret (trim (toLowerCase e)) \<longrightarrow>
        unsubscribe sign secret (Some e) (Some t) rows
          = (Inr (), map (\<lambda>r. if email r = trim (toLowerCase e) then r\<lparr>active := 0\<rparr> else r) rows)
        \<and> (\<not> list_ex (\<lambda>r. email r = trim (toLowerCase e)) rows \<longrightarrow>
             unsubscribe sign secret (Some e) (Some t) rows = (Inr (), rows)))"
proof -
  have same: "\<not> list_ex (\<lambda>r. email r = x) rows \<Longrightarrow>
              map (\<lambda>r. if email r = x then r\<lparr>active := 0\<rparr> else r) rows = rows" for x
    by (induction rows) auto
  show ?thesis
    using same[of "trim (toLowerCase e)"]
    by (auto simp: unsubscribe_def validateHmacToken_eq sql_update_def Let_def)
qed

theorem unsubscribe_requires_valid_hmac_witness:
  "unsubscribe example_sign ''key'' (Some '' A@X.com'')
      (Some (hmac_sha256_hex example_sign ''key'' ''a@x.com'')) [pending_row]
     = (Inr (), [pending_row\<lparr>active := 0\<rparr>])
   \<and> unsubscribe example_sign ''key'' (Some '' A@X.com'') (Some ''0a0b'') [pending_row]
     = (Inl (Http_error 403 ''Invalid unsubscribe link.''), [pending_row])
   \<and> unsubscribe example_sign ''key'' None (Some ''0a0b'') [pending_row]
     = (Inl (Http_error 400 ''Invalid unsubscribe link.''), [pending_row])"
proof -
  have norm: "trim (toLowerCase '' A@X.com'') = ''a@x.com''" by code_simp
  have tok: "hmac_sha256_hex example_sign ''key'' ''a@x.com''
      = ''0a0a0a0a0a0a0a0a0a0a0a0a0a0a0a0a0a0a0a0a0a0a0a0a0a0a0a0a0a0a0a0a''" by code_simp
  have em: "email pending_row = ''a@x.com''" by (simp add: pending_row_def)
  show ?thesis
    using unsubscribe_requires_valid_hmac[of None "Some ''0a0b''" example_sign "''key''" "[pending_row]"
            "''0a0b''" "'' A@X.com''"]
          unsubscribe_requires_valid_hmac[of None "Some ''0a0b''" example_sign "''key''" "[pending_row]"
            "hmac_sha256_hex example_sign ''key'' ''a@x.com''" "'' A@X.com''"]
    unfolding norm by (simp add: tok em)
qed

section \<open>Sorting the index\<close>


lemma localeCompare_le: "(localeCompare a b \<le> 0) = (a \<le> b)"
  by (induction a b rule: localeCompare.induct) (auto simp: less_char_def)

lemma localeCompare_refl: "localeCompare a a = 0"
  by (induction a) auto

lemma set_insert_cmp: "set (insert_cmp cmp x ys) = insert x (set ys)"
  by (induction ys) auto

lemma set_sort_cmp: "set (sort_cmp cmp xs) = set xs"
  unfolding sort_cmp_def by (induction xs) (auto simp: set_insert_cmp)

lemma length_insert_cmp: "length (insert_cmp cmp x ys) = Suc (length ys)"
  by (induction ys) auto

lemma length_sort_cmp: "length (sort_cmp cmp xs) = length xs"
  unfolding sort_cmp_def by (induction xs) (auto simp: length_insert_cmp)

lemma distinct_map_insert_cmp:
  "distinct (map f (insert_cmp cmp x ys)) = (f x \<notin> f ` set ys \<and> distinct (map f ys))"
  by (induction ys) (auto simp: set_insert_cmp)

lemma distinct_map_sort_cmp: "distinct (map f (sort_cmp cmp xs)) = distinct (map f xs)"
  unfolding sort_cmp_def
proof (induction xs)
  case Nil
  then show ?case by simp
next
  case (Cons x xs)
  have "set (foldr (insert_cmp cmp) xs []) = set xs"
    using set_sort_cmp[of cmp xs] by (simp add: sort_cmp_def)
  then show ?case using Cons by (simp add: distinct_map_insert_cmp)
qed

lemma sorted_insert_cmp:
  "sorted_wrt (\<lambda>a b. date_range_end b \<le> date_range_end a) ys \<Longrightarrow>
   sorted_wrt (\<lambda>a b. date_range_end b \<le> date_range_end a)
     (insert_cmp (\<lambda>a b. localeCompare (date_range_end b) (date_range_end a)) x ys)"
proof (induction ys)
  case Nil
  then show ?case by simp
next
  case (Cons y ys)
  show ?case
  proof (cases "date_range_end y \<le> date_range_end x")
    case True
    then show ?thesis using Cons.prems by (auto simp: localeCompare_le)
  next
    case False
    then have "date_range_end x \<le> date_range_end y" by simp
    then show ?thesis using False Cons by (auto simp: localeCompare_le set_insert_cmp)
  qed
qed

lemma sorted_sort_cmp:
  "sorted (rev (map date_range_end
     (sort_cmp (\<lambda>a b. localeCompare (date_range_end b) (date_range_end a)) xs)))"
proof -
  have "sorted_wrt (\<lambda>a b. date_range_end b \<le> date_range_end a)
          (sort_cmp (\<lambda>a b. localeCompare (date_range_end b) (date_range_end a)) xs)"
    unfolding sort_cmp_def by (induction xs) (auto simp: sorted_insert_cmp)
  then show ?thesis
    by (simp add: sorted_wrt_rev sorted_wrt_map flip: rev_map)
qed

lemma filter_insert_cmp:
  "\<forall>y \<in> set ys. P x \<and> P y \<longrightarrow> cmp x y \<le> 0 \<Longrightarrow>
   filter P (insert_cmp cmp x ys) = filter P (x # ys)"
  by (induction ys) auto

lemma filter_sort_cmp:
  "\<forall>x \<in> set xs. \<forall>y \<in> set xs. P x \<and> P y \<longrightarrow> cmp x y \<le> 0 \<Longrightarrow>
   filter P (sort_cmp cmp xs) = filter P xs"
proof (induction xs)
  case Nil
  then show ?case by (simp add: sort_cmp_def)
next
  case (Cons x xs)
  have IH: "filter P (sort_cmp cmp xs) = filter P xs" using Cons by simp
  have "filter P (insert_cmp cmp x (sort_cmp cmp xs)) = filter P (x # sort_cmp cmp xs)"
    by (rule filter_insert_cmp) (use Cons.prems in \<open>auto simp: set_sort_cmp\<close>)
  then show ?case using IH by (simp add: sort_cmp_def)
qed

lemma descending_unique:
  assumes "sorted (rev (map f xs))" and "sorted (rev (map f ys))"
      and "distinct (map f xs)" and "distinct ys" and "set xs = set ys"
  shows "xs = ys"
proof -
  have inj: "inj_on f (set xs)" using assms(3) by (simp add: distinct_map)
  have dys: "distinct (map f ys)" using assms(4,5) inj by (simp add: distinct_map)
  have "rev (map f xs) = rev (map f ys)"
    by (rule sorted_distinct_set_unique) (use assms dys in auto)
  then have "map f xs = map f ys" by simp
  then show ?thesis using inj assms(5) by (simp add: map_inj_on)
qed

section \<open>The archive store: lemmas\<close>


lemma findIndex_Some:
  "findIndex P xs = Some i \<Longrightarrow> i < length xs \<and> P (xs ! i) \<and> (\<forall>j < i. \<not> P (xs ! j))"
proof (induction xs arbitrary: i)
  case Nil
  then show ?case by simp
next
  case (Cons x xs)
  show ?case
  proof (cases "P x")
    case True
    then show ?thesis using Cons.prems by auto
  next
    case False
    then obtain k where k: "findIndex P xs = Some k" "i = Suc k"
      using Cons.prems by auto
    have "k < length xs \<and> P (xs ! k) \<and> (\<forall>j < k. \<not> P (xs ! j))"
      using Cons.IH[OF k(1)] .
    then show ?thesis using False k(2) by (auto simp: nth_Cons split: nat.splits)
  qed
qed

lemma findIndex_None: "(findIndex P xs = None) = (\<forall>x \<in> set xs. \<not> P x)"
  by (induction xs) auto

lemma findIndex_find:
  "findIndex P xs = Some i \<Longrightarrow> find P xs = Some (xs ! i)"
  by (induction xs arbitrary: i) (auto split: if_splits)

lemma find_unique_key:
  assumes "distinct (map f xs)" and "x \<in> set xs"
  shows "find (\<lambda>r. f r = f x) xs = Some x"
  using assms by (induction xs) (auto simp: image_iff)

lemma json_of_ReportMeta_idem: "json_of_ReportMeta (json_of_ReportMeta m) = json_of_ReportMeta m"
  by (cases "days m"; cases "total_items m") (simp_all add: json_of_ReportMeta_def)

lemma json_of_ReportMeta_keys [simp]:
  "report_id (json_of_ReportMeta m) = report_id m"
  "date_range_end (json_of_ReportMeta m) = date_range_end m"
  "r2_key (json_of_ReportMeta m) = r2_key m"
  by (simp_all add: json_of_ReportMeta_def)

lemma reports_getArchiveIndex: "reports (getArchiveIndex (ARCHIVE_KV env) now) = stored_reports env"
  by (simp add: getArchiveIndex_def stored_reports_def split: option.splits)

lemma stored_reports_save:
  "stored_reports (env\<lparr>ARCHIVE_KV := saveArchiveIndex kv index now\<rparr>)
     = map json_of_ReportMeta (reports index)"
  by (simp add: stored_reports_def saveArchiveIndex_def json_of_ArchiveIndex_def)

lemma distinct_put_entry:
  assumes "distinct (map report_id rs)"
  shows "distinct (map report_id (put_entry m rs))" and "m \<in> set (put_entry m rs)"
proof -
  show "distinct (map report_id (put_entry m rs))"
  proof (cases "findIndex (\<lambda>r. report_id r = report_id m) rs")
    case None
    then have "\<forall>x \<in> set rs. report_id x \<noteq> report_id m"
      by (simp add: findIndex_None)
    then show ?thesis using assms None by (auto simp: put_entry_def)
  next
    case (Some i)
    then have i: "i < length rs" "report_id (rs ! i) = report_id m"
      using findIndex_Some[OF Some] by auto
    have "map report_id (rs[i := m]) = map report_id rs"
      using i by (simp add: map_update list_update_same_conv)
    then show ?thesis using assms Some by (simp add: put_entry_def)
  qed
  show "m \<in> set (put_entry m rs)"
  proof (cases "findIndex (\<lambda>r. report_id r = report_id m) rs")
    case None
    then show ?thesis by (simp add: put_entry_def)
  next
    case (Some i)
    then have "i < length rs" using findIndex_Some[OF Some] by auto
    then show ?thesis using Some by (simp add: put_entry_def set_update_memI)
  qed
qed

lemma post_archive_success:
  assumes "post_archive now authHeader h html env = (Inr res, env')"
  shows "isAuthorized authHeader env"
    and "\<not> falsy (X_Report_Id h)" and "\<not> falsy (X_Date_Start h)" and "\<not> falsy (X_Date_End h)"
    and "\<not> falsy (X_Generated_At h)" and "\<not> falsy (X_Title h)" and "\<not> falsy (X_Summary h)"
    and "\<not> falsy (X_Days h)" and "\<not> falsy (X_Total_Items h)"
    and "trim html \<noteq> []"
    and "ARCHIVE_R2 env' = (ARCHIVE_R2 env)(r2_key (report_of_headers h) \<mapsto> html)"
    and "stored_reports env' = map json_of_ReportMeta
           (sort_cmp (\<lambda>a b. localeCompare (date_range_end b) (date_range_end a))
              (put_entry (report_of_headers h) (stored_reports env)))"
    and "post_data res = json_of_ReportMeta (report_of_headers h)"
    and "post_status res = (if list_ex (\<lambda>r. report_id r = the (X_Report_Id h)) (stored_reports env) then 200 else 201)"
    and "ADMIN_API_SECRET env' = ADMIN_API_SECRET env"
proof -
  have guards: "isAuthorized authHeader env \<and> \<not> falsy (X_Report_Id h) \<and> \<not> falsy (X_Date_Start h)
      \<and> \<not> falsy (X_Date_End h) \<and> \<not> falsy (X_Generated_At h) \<and> \<not> falsy (X_Title h)
      \<and> \<not> falsy (X_Summary h) \<and> \<not> falsy (X_Days h) \<and> \<not> falsy (X_Total_Items h)
      \<and> html \<noteq> [] \<and> trim html \<noteq> []"
    using assms unfolding post_archive_def by (auto split: if_splits)
  have rid: "report_id (report_of_headers h) = the (X_Report_Id h)"
    by (simp add: report_of_headers_def)
  have meta: "\<lparr>report_id = the (X_Report_Id h),
      date_range_start = the (X_Date_Start h),
      date_range_end = the (X_Date_End h),
      generated_at = the (X_Generated_At h),
      title = the (X_Title h),
      summary = the (X_Summary h),
      r2_key = ''reports/'' @ the (X_Report_Id h) @ ''.html'',
      days = parseInt (the (X_Days h)),
      total_items = parseInt (the (X_Total_Items h))\<rparr> = report_of_headers h"
    by (simp add: report_of_headers_def)
  have unfolded: "post_archive now authHeader h html env =
     (Inr \<lparr>post_status = (if findIndex (\<lambda>r. report_id r = the (X_Report_Id h)) (stored_reports env) \<noteq> None then 200 else 201),
           post_message = (if findIndex (\<lambda>r. report_id r = the (X_Report_Id h)) (stored_reports env) \<noteq> None
                           then ''Report updated'' else ''Report uploaded''),
           post_data = json_of_ReportMeta (report_of_headers h)\<rparr>,
      env\<lparr>ARCHIVE_R2 := (ARCHIVE_R2 env)(r2_key (report_of_headers h) \<mapsto> html),
          ARCHIVE_KV := saveArchiveIndex (ARCHIVE_KV env)
            ((getArchiveIndex (ARCHIVE_KV env) now)
               \<lparr>reports := sort_cmp (\<lambda>a b. localeCompare (date_range_end b) (date_range_end a))
                   (put_entry (report_of_headers h) (stored_reports env))\<rparr>) now\<rparr>)"
    using guards unfolding post_archive_def Let_def meta
    by (simp add: reports_getArchiveIndex put_entry_def rid report_of_headers_def[of h, THEN arg_cong[of _ _ r2_key]]
          split: option.splits)
  show "isAuthorized authHeader env"
    and "\<not> falsy (X_Report_Id h)" and "\<not> falsy (X_Date_Start h)" and "\<not> falsy (X_Date_End h)"
    and "\<not> falsy (X_Generated_At h)" and "\<not> falsy (X_Title h)" and "\<not> falsy (X_Summary h)"
    and "\<not> falsy (X_Days h)" and "\<not> falsy (X_Total_Items h)"
    and "trim html \<noteq> []"
    using guards by simp_all
  show "ARCHIVE_R2 env' = (ARCHIVE_R2 env)(r2_key (report_of_headers h) \<mapsto> html)"
    using assms unfolded by auto
  show "stored_reports env' = map json_of_ReportMeta
           (sort_cmp (\<lambda>a b. localeCompare (date_range_end b) (date_range_end a))
              (put_entry (report_of_headers h) (stored_reports env)))"
    using assms unfolded by (auto simp: stored_reports_def saveArchiveIndex_def json_of_ArchiveIndex_def)
  show "post_data res = json_of_ReportMeta (report_of_headers h)"
    using assms unfolded by auto
  show "post_status res = (if list_ex (\<lambda>r. report_id r = the (X_Report_Id h)) (stored_reports env) then 200 else 201)"
    using assms unfolded by (auto simp: findIndex_None list_ex_iff)
  show "ADMIN_API_SECRET env' = ADMIN_API_SECRET env"
    using assms unfolded by auto
qed

lemma post_archive_failure:
  "post_archive now authHeader h html env = (Inl e, env') \<Longrightarrow> env' = env"
  unfolding post_archive_def Let_def by (auto split: if_splits)

lemma patch_archive_failure:
  "patch_archive now authHeader rid body env = (Inl e, env') \<Longrightarrow> env' = env"
  unfolding patch_archive_def Let_def by (auto split: if_splits option.splits)

lemma delete_archive_failure:
  "delete_archive now authHeader rid env = (Inl e, env') \<Longrightarrow> env' = env"
  unfolding delete_archive_def Let_def by (auto split: if_splits option.splits)

lemma patch_archive_found:
  assumes "isAuthorized authHeader env" and "\<not> (falsy (patch_title b) \<and> falsy (patch_summary b))"
      and "findIndex (\<lambda>r. report_id r = rid) (stored_reports env) = Some i"
  shows "patch_archive now authHeader rid (Some b) env =
     (Inr (json_of_ReportMeta (apply_patch b (stored_reports env ! i))),
      env\<lparr>ARCHIVE_KV := saveArchiveIndex (ARCHIVE_KV env)
            ((getArchiveIndex (ARCHIVE_KV env) now)
               \<lparr>reports := (stored_reports env)[i := apply_patch b (stored_reports env ! i)]\<rparr>) now\<rparr>)"
proof -
  have same: "(let r0 = stored_reports env ! i;
          r1 = (if \<not> falsy (patch_title b) then r0\<lparr>title := the (patch_title b)\<rparr> else r0)
      in (if \<not> falsy (patch_summary b) then r1\<lparr>summary := the (patch_summary b)\<rparr> else r1))
     = apply_patch b (stored_reports env ! i)"
    by (simp add: apply_patch_def Let_def)
  show ?thesis
    using assms same unfolding patch_archive_def
    by (simp add: reports_getArchiveIndex Let_def)
qed

lemma delete_archive_found:
  assumes "isAuthorized authHeader env"
      and "findIndex (\<lambda>r. report_id r = rid) (stored_reports env) = Some i"
  shows "stored_reports (snd (delete_archive now authHeader rid env))
     = map json_of_ReportMeta (take i (stored_reports env) @ drop (Suc i) (stored_reports env))"
proof -
  have "delete_archive now authHeader rid env =
      (Inr ''Report deleted'',
       env\<lparr>ARCHIVE_R2 := (ARCHIVE_R2 env)(r2_key (stored_reports env ! i) := None),
           ARCHIVE_KV := saveArchiveIndex (ARCHIVE_KV env)
             ((getArchiveIndex (ARCHIVE_KV env) now)
                \<lparr>reports := take i (stored_reports env) @ drop (Suc i) (stored_reports env)\<rparr>) now\<rparr>)"
    using assms unfolding delete_archive_def
    by (simp add: reports_getArchiveIndex Let_def)
  then show ?thesis
    by (simp add: stored_reports_save)
qed

lemma clean_map_json:
  "list_all (\<lambda>r. json_of_ReportMeta r = r) (map json_of_ReportMeta rs)"
  by (simp add: list_all_iff json_of_ReportMeta_idem)

lemma map_json_clean:
  "list_all (\<lambda>r. json_of_ReportMeta r = r) rs \<Longrightarrow> map json_of_ReportMeta rs = rs"
  by (simp add: list_all_iff map_idI)

lemma archive_inv_post:
  assumes "archive_inv env"
  shows "archive_inv (snd (post_archive now authHeader h html env))"
proof (cases "post_archive now authHeader h html env")
  case (Pair result env')
  show ?thesis
  proof (cases result)
    case (Inl e)
    then show ?thesis using Pair assms post_archive_failure by fastforce
  next
    case (Inr res)
    have st: "stored_reports env' = map json_of_ReportMeta
           (sort_cmp (\<lambda>a b. localeCompare (date_range_end b) (date_range_end a))
              (put_entry (report_of_headers h) (stored_reports env)))"
      using post_archive_success(12)[of now authHeader h html env res env'] Pair Inr by simp
    have "distinct (map report_id (put_entry (report_of_headers h) (stored_reports env)))"
      using assms distinct_put_entry(1) by (simp add: archive_inv_def)
    then have "distinct (map report_id (stored_reports env'))"
      unfolding st by (simp add: o_def distinct_map_sort_cmp)
    then show ?thesis
      using Pair clean_map_json st by (simp add: archive_inv_def)
  qed
qed

lemma archive_inv_patch:
  assumes "archive_inv env"
  shows "archive_inv (snd (patch_archive now authHeader rid body env))"
proof (cases "patch_archive now authHeader rid body env")
  case (Pair result env')
  show ?thesis
  proof (cases result)
    case (Inl e)
    then show ?thesis using Pair assms patch_archive_failure by fastforce
  next
    case (Inr res)
    then obtain b i where ok: "isAuthorized authHeader env" "body = Some b"
        "\<not> (falsy (patch_title b) \<and> falsy (patch_summary b))"
        "findIndex (\<lambda>r. report_id r = rid) (stored_reports env) = Some i"
      using Pair unfolding patch_archive_def
      by (auto simp: reports_getArchiveIndex Let_def split: if_splits option.splits)
    have i: "i < length (stored_reports env)" using findIndex_Some[OF ok(4)] by simp
    have st: "stored_reports env' = map json_of_ReportMeta
        ((stored_reports env)[i := apply_patch b (stored_reports env ! i)])"
      using patch_archive_found[OF ok(1,3,4), of now] Pair ok(2)
      by (auto simp: stored_reports_save)
    have "map report_id ((stored_reports env)[i := apply_patch b (stored_reports env ! i)])
        = map report_id (stored_reports env)"
      using i by (simp add: map_update apply_patch_def list_update_same_conv)
    then have "distinct (map report_id (stored_reports env'))"
      unfolding st using assms by (simp add: o_def archive_inv_def)
    then show ?thesis
      using Pair clean_map_json st by (simp add: archive_inv_def)
  qed
qed

lemma distinct_take_drop_Suc: "distinct xs \<Longrightarrow> distinct (take i xs @ drop (Suc i) xs)"
proof (cases "i < length xs")
  case True
  assume "distinct xs"
  then have "distinct (take i xs @ xs ! i # drop (Suc i) xs)"
    using id_take_nth_drop[OF True] by simp
  then show ?thesis by simp
next
  case False
  assume "distinct xs"
  then show ?thesis using False by simp
qed

lemma archive_inv_delete:
  assumes "archive_inv env"
  shows "archive_inv (snd (delete_archive now authHeader rid env))"
proof (cases "isAuthorized authHeader env")
  case False
  then show ?thesis using assms by (simp add: delete_archive_def)
next
  case True
  show ?thesis
  proof (cases "findIndex (\<lambda>r. report_id r = rid) (stored_reports env)")
    case None
    then show ?thesis using assms True
      by (simp add: delete_archive_def reports_getArchiveIndex)
  next
    case (Some i)
    have "distinct (map report_id (stored_reports env))"
      using assms by (simp add: archive_inv_def)
    then have "distinct (take i (map report_id (stored_reports env))
                 @ drop (Suc i) (map report_id (stored_reports env)))"
      by (rule distinct_take_drop_Suc)
    then have "distinct (map report_id (take i (stored_reports env))
                 @ map report_id (drop (Suc i) (stored_reports env)))"
      by (simp add: take_map drop_map)
    then show ?thesis
      unfolding archive_inv_def delete_archive_found[OF True Some]
      using clean_map_json by (simp add: o_def)
  qed
qed

lemma archive_inv_serve: "archive_inv env \<Longrightarrow> archive_inv (serve r env)"
proof (cases r)
  case (Pair now req)
  assume "archive_inv env"
  then show ?thesis
    using Pair by (cases req) (simp_all add: archive_inv_post archive_inv_patch archive_inv_delete)
qed

lemma archive_inv_run: "archive_inv env \<Longrightarrow> archive_inv (run_requests history env)"
  unfolding run_requests_def
  by (induction history arbitrary: env) (simp_all add: archive_inv_serve)

lemma archive_inv_fresh: "archive_inv (fresh_env secret)"
  by (simp add: archive_inv_def stored_reports_def fresh_env_def)

lemma archive_inv_history: "archive_inv (run_requests history (fresh_env secret))"
  by (simp add: archive_inv_run archive_inv_fresh)

lemma post_archive_accepts:
  assumes "isAuthorized authHeader env"
      and "\<not> falsy (X_Report_Id h)" and "\<not> falsy (X_Date_Start h)" and "\<not> falsy (X_Date_End h)"
      and "\<not> falsy (X_Generated_At h)" and "\<not> falsy (X_Title h)" and "\<not> falsy (X_Summary h)"
      and "\<not> falsy (X_Days h)" and "\<not> falsy (X_Total_Items h)"
      and "trim html \<noteq> []"
  shows "\<exists>res env'. post_archive now authHeader h html env = (Inr res, env')"
proof -
  have "html \<noteq> []" using assms(10) by (auto simp: trim_def)
  then show ?thesis
    using assms unfolding post_archive_def Let_def by simp
qed

lemma stored_after_post:
  assumes ok: "post_archive now authHeader h html env = (Inr res, env')"
      and inv: "archive_inv env"
  shows "archive_inv env'"
    and "json_of_ReportMeta (report_of_headers h) \<in> set (stored_reports env')"
    and "find (\<lambda>r. report_id r = the (X_Report_Id h)) (stored_reports env')
           = Some (json_of_ReportMeta (report_of_headers h))"
proof -
  show inv': "archive_inv env'"
    using archive_inv_post[OF inv, of now authHeader h html] ok by simp
  have st: "stored_reports env' = map json_of_ReportMeta
           (sort_cmp (\<lambda>a b. localeCompare (date_range_end b) (date_range_end a))
              (put_entry (report_of_headers h) (stored_reports env)))"
    using post_archive_success(12)[OF ok] .
  have "report_of_headers h \<in> set (put_entry (report_of_headers h) (stored_reports env))"
    using distinct_put_entry(2) inv by (simp add: archive_inv_def)
  then show mem: "json_of_ReportMeta (report_of_headers h) \<in> set (stored_reports env')"
    unfolding st by (simp add: set_sort_cmp)
  have "find (\<lambda>r. report_id r = report_id (json_of_ReportMeta (report_of_headers h))) (stored_reports env')
      = Some (json_of_ReportMeta (report_of_headers h))"
    by (rule find_unique_key) (use inv' mem in \<open>auto simp: archive_inv_def\<close>)
  then show "find (\<lambda>r. report_id r = the (X_Report_Id h)) (stored_reports env')
           = Some (json_of_ReportMeta (report_of_headers h))"
    by (simp add: report_of_headers_def)
qed

lemma filter_put_entry:
  assumes "\<And>r. P r \<Longrightarrow> report_id r \<noteq> report_id m"
  shows "filter P (put_entry m rs) = filter P rs"
proof (cases "findIndex (\<lambda>r. report_id r = report_id m) rs")
  case None
  then show ?thesis using assms by (auto simp: put_entry_def)
next
  case (Some i)
  then have i: "i < length rs" "report_id (rs ! i) = report_id m"
    using findIndex_Some[OF Some] by auto
  have split: "rs = take i rs @ rs ! i # drop (Suc i) rs"
    using i(1) by (simp add: id_take_nth_drop)
  have upd: "rs[i := m] = take i rs @ m # drop (Suc i) rs"
    using i(1) by (simp add: upd_conv_take_nth_drop)
  have "\<not> P m" "\<not> P (rs ! i)" using assms i(2) by auto
  then have "filter P (rs[i := m]) = filter P (take i rs) @ filter P (drop (Suc i) rs)"
    and "filter P rs = filter P (take i rs) @ filter P (drop (Suc i) rs)"
    using upd split by (simp, metis filter.simps(2) filter_append)
  then show ?thesis using Some by (simp add: put_entry_def)
qed

text \<open>\<open>parseInt\<close> on a run of decimal digits below \<open>2^53\<close> is the number they write.\<close>

lemma parseInt_digits:
  assumes ne: "ds \<noteq> []" and digits: "list_all is_digit ds" and small: "decimal ds < 2 ^ 53"
  shows "parseInt ds = Num (decimal ds)"
proof -
  obtain c cs where ds: "ds = c # cs" using ne by (cases ds) auto
  have dc: "is_digit c" using digits ds by simp
  have nospace: "\<not> is_space c" using dc by (auto simp: is_digit_def is_space_def)
  have nosign: "c \<noteq> CHR ''+''" "c \<noteq> CHR ''-''"
    using dc by (auto simp: is_digit_def)
  have dw: "dropWhile is_space ds = ds" using nospace ds by simp
  have tw: "takeWhile is_digit ds = ds"
    using digits by (simp add: takeWhile_eq_all_conv list_all_iff)
  have nd: "nearest_double (decimal ds) = Some (decimal ds)"
    using small by (simp add: nearest_double_def)
  show ?thesis
    unfolding parseInt_def dw Let_def
    using nosign ne tw nd by (simp add: ds)
qed

lemma put_entry_json:
  assumes clean: "list_all (\<lambda>r. json_of_ReportMeta r = r) rs"
  shows "map json_of_ReportMeta (put_entry m rs)
     = (case findIndex (\<lambda>r. report_id r = report_id m) rs of
          Some i \<Rightarrow> rs[i := json_of_ReportMeta m]
        | None \<Rightarrow> rs @ [json_of_ReportMeta m])"
  using map_json_clean[OF clean]
  by (simp add: put_entry_def map_update split: option.splits)

section \<open>PutReport\<close>

text \<open>
  C4 (as amended). After every successful \<open>PutReport\<close> (insert or replace) on a store that
  archive requests built from a fresh deployment, the index has pairwise-distinct ids and is
  sorted by \<open>date_range_end\<close> in descending lexicographic order. The sort is stable: the
  entries with one and the same \<open>date_range_end\<close> stand in the order of the index before the
  call, in which a replaced entry takes the place of the entry it replaces and a new entry
  comes last. So the order among ties depends on the calls that built the index, and the
  order is determined by the stored data alone when the \<open>date_range_end\<close> values are pairwise
  distinct: then sorting any listing of the same entries gives the stored sequence. In
  particular, as the example after the theorem shows, after two \<open>PutReport\<close> calls with date
  ranges ending 2025-12-01 and 2025-12-05, in either order, the 2025-12-05 entry is listed
  first; and when the 2025-12-05 report is put again with a range ending 2025-12-01, it stays
  in front of the report that ended on that day before it.
\<close>

theorem post_archive_index_order:
  assumes ok: "post_archive now authHeader h html (run_requests history (fresh_env secret))
                 = (Inr res, env')"
  shows "distinct (map report_id (stored_reports env'))
       \<and> sorted (rev (map date_range_end (stored_reports env')))
       \<and> (\<forall>d. filter (\<lambda>r. date_range_end r = d) (stored_reports env')
             = filter (\<lambda>r. date_range_end r = d)
                 (case findIndex (\<lambda>r. report_id r = the (X_Report_Id h))
                         (stored_reports (run_requests history (fresh_env secret))) of
                    Some i \<Rightarrow> (stored_reports (run_requests history (fresh_env secret)))
                                [i := post_data res]
                  | None \<Rightarrow> stored_reports (run_requests history (fresh_env secret))
                              @ [post_data res]))
       \<and> (distinct (map date_range_end (stored_reports env')) \<longrightarrow>
            (\<forall>ys. distinct ys \<and> set ys = set (stored_reports env') \<longrightarrow>
               sort_cmp (\<lambda>a b. localeCompare (date_range_end b) (date_range_end a)) ys
                 = stored_reports env'))"
proof -
  let ?env = "run_requests history (fresh_env secret)"
  let ?cmp = "\<lambda>a b. localeCompare (date_range_end b) (date_range_end a)"
  let ?m = "report_of_headers h"
  have inv: "archive_inv ?env" by (rule archive_inv_history)
  have inv': "archive_inv env'" using stored_after_post(1)[OF ok inv] .
  have st: "stored_reports env' = map json_of_ReportMeta (sort_cmp ?cmp (put_entry ?m (stored_reports ?env)))"
    using post_archive_success(12)[OF ok] .
  have data: "post_data res = json_of_ReportMeta ?m"
    using post_archive_success(13)[OF ok] .
  have rid: "report_id ?m = the (X_Report_Id h)" by (simp add: report_of_headers_def)
  have clean: "list_all (\<lambda>r. json_of_ReportMeta r = r) (stored_reports ?env)"
    using inv by (simp add: archive_inv_def)
  have c1: "distinct (map report_id (stored_reports env'))"
    using inv' by (simp add: archive_inv_def)
  have c2: "sorted (rev (map date_range_end (stored_reports env')))"
    unfolding st using sorted_sort_cmp[of "put_entry ?m (stored_reports ?env)"]
    by (simp add: o_def)
  have c3: "filter (\<lambda>r. date_range_end r = d) (stored_reports env')
             = filter (\<lambda>r. date_range_end r = d)
                 (case findIndex (\<lambda>r. report_id r = the (X_Report_Id h)) (stored_reports ?env) of
                    Some i \<Rightarrow> (stored_reports ?env)[i := post_data res]
                  | None \<Rightarrow> stored_reports ?env @ [post_data res])" for d
  proof -
    let ?Q = "\<lambda>r. date_range_end r = d"
    have "filter ?Q (stored_reports env')
        = map json_of_ReportMeta (filter ?Q (sort_cmp ?cmp (put_entry ?m (stored_reports ?env))))"
      unfolding st by (simp add: filter_map o_def)
    also have "filter ?Q (sort_cmp ?cmp (put_entry ?m (stored_reports ?env)))
        = filter ?Q (put_entry ?m (stored_reports ?env))"
      by (rule filter_sort_cmp) (simp add: localeCompare_refl)
    also have "map json_of_ReportMeta (filter ?Q (put_entry ?m (stored_reports ?env)))
        = filter ?Q (map json_of_ReportMeta (put_entry ?m (stored_reports ?env)))"
      by (simp add: filter_map o_def)
    also have "map json_of_ReportMeta (put_entry ?m (stored_reports ?env))
        = (case findIndex (\<lambda>r. report_id r = the (X_Report_Id h)) (stored_reports ?env) of
                    Some i \<Rightarrow> (stored_reports ?env)[i := post_data res]
                  | None \<Rightarrow> stored_reports ?env @ [post_data res])"
      unfolding put_entry_json[OF clean] rid data ..
    finally show ?thesis .
  qed
  have c4: "sort_cmp ?cmp ys = stored_reports env'"
    if d: "distinct (map date_range_end (stored_reports env'))"
      and ys: "distinct ys" "set ys = set (stored_reports env')" for ys
  proof -
    have "distinct (sort_cmp ?cmp ys)"
      using distinct_map_sort_cmp[of "\<lambda>x. x" ?cmp ys] ys(1) by simp
    then have "stored_reports env' = sort_cmp ?cmp ys"
      using c2 d ys(2) sorted_sort_cmp[of ys]
      by (intro descending_unique[of date_range_end]) (simp_all add: set_sort_cmp)
    then show ?thesis by simp
  qed
  show ?thesis using c1 c2 c3 c4 by blast
qed

theorem post_archive_index_order_witness:
  "distinct (map report_id
      (stored_reports (snd (post_archive ''t3'' example_auth headers_dec05_moved example_html
         (run_requests [(''t1'', POST example_auth headers_dec01 example_html),
                        (''t2'', POST example_auth headers_dec05 example_html)]
            (fresh_env example_secret))))))
   \<and> map (\<lambda>r. (report_id r, date_range_end r))
      (stored_reports (run_requests [(''t1'', POST example_auth headers_dec01 example_html),
                        (''t2'', POST example_auth headers_dec05 example_html)]
            (fresh_env example_secret)))
     = [(''r-dec05'', ''2025-12-05''), (''r-dec01'', ''2025-12-01'')]
   \<and> map (\<lambda>r. (report_id r, date_range_end r))
      (stored_reports (snd (post_archive ''t3'' example_auth headers_dec05_moved example_html
         (run_requests [(''t1'', POST example_auth headers_dec01 example_html),
                        (''t2'', POST example_auth headers_dec05 example_html)]
            (fresh_env example_secret)))))
     = [(''r-dec05'', ''2025-12-01''), (''r-dec01'', ''2025-12-01'')]
   \<and> map date_range_end
      (stored_reports (snd (post_archive ''t2'' example_auth headers_dec01 example_html
         (run_requests [(''t1'', POST example_auth headers_dec05 example_html)]
            (fresh_env example_secret)))))
     = [''2025-12-05'', ''2025-12-01'']
   \<and> sort_cmp (\<lambda>a b. localeCompare (date_range_end b) (date_range_end a))
        (rev (stored_reports (snd (post_archive ''t2'' example_auth headers_dec01 example_html
           (run_requests [(''t1'', POST example_auth headers_dec05 example_html)]
              (fresh_env example_secret))))))
     = stored_reports (snd (post_archive ''t2'' example_auth headers_dec01 example_html
           (run_requests [(''t1'', POST example_auth headers_dec05 example_html)]
              (fresh_env example_secret))))"
proof -
  let ?env = "run_requests [(''t1'', POST example_auth headers_dec01 example_html),
                        (''t2'', POST example_auth headers_dec05 example_html)]
                (fresh_env example_secret)"
  let ?env2 = "run_requests [(''t1'', POST example_auth headers_dec05 example_html)]
                (fresh_env example_secret)"
  have "isl (fst (post_archive ''t3'' example_auth headers_dec05_moved example_html ?env)) = False"
    by code_simp
  then obtain res where "fst (post_archive ''t3'' example_auth headers_dec05_moved example_html ?env) = Inr res"
    by (cases "fst (post_archive ''t3'' example_auth headers_dec05_moved example_html ?env)") auto
  then have ok: "post_archive ''t3'' example_auth headers_dec05_moved example_html ?env
      = (Inr res, snd (post_archive ''t3'' example_auth headers_dec05_moved example_html ?env))"
    by (simp add: prod_eq_iff)
  have "isl (fst (post_archive ''t2'' example_auth headers_dec01 example_html ?env2)) = False"
    by code_simp
  then obtain res2 where "fst (post_archive ''t2'' example_auth headers_dec01 example_html ?env2) = Inr res2"
    by (cases "fst (post_archive ''t2'' example_auth headers_dec01 example_html ?env2)") auto
  then have ok2: "post_archive ''t2'' example_auth headers_dec01 example_html ?env2
      = (Inr res2, snd (post_archive ''t2'' example_auth headers_dec01 example_html ?env2))"
    by (simp add: prod_eq_iff)
  have before: "map (\<lambda>r. (report_id r, date_range_end r)) (stored_reports ?env)
     = [(''r-dec05'', ''2025-12-05''), (''r-dec01'', ''2025-12-01'')]"
    by code_simp
  have after: "map (\<lambda>r. (report_id r, date_range_end r))
      (stored_reports (snd (post_archive ''t3'' example_auth headers_dec05_moved example_html ?env)))
     = [(''r-dec05'', ''2025-12-01''), (''r-dec01'', ''2025-12-01'')]"
    by code_simp
  have other: "map date_range_end
      (stored_reports (snd (post_archive ''t2'' example_auth headers_dec01 example_html ?env2)))
     = [''2025-12-05'', ''2025-12-01'']"
    by code_simp
  have dates: "distinct (map date_range_end
      (stored_reports (snd (post_archive ''t2'' example_auth headers_dec01 example_html ?env2))))"
    unfolding other by simp
  have ids: "distinct (map report_id
      (stored_reports (snd (post_archive ''t2'' example_auth headers_dec01 example_html ?env2))))"
    using post_archive_index_order[OF ok2] by blast
  have listing: "distinct (rev (stored_reports (snd (post_archive ''t2'' example_auth headers_dec01 example_html ?env2))))"
    using ids by (simp add: distinct_map)
  have sorted_again: "sort_cmp (\<lambda>a b. localeCompare (date_range_end b) (date_range_end a))
        (rev (stored_reports (snd (post_archive ''t2'' example_auth headers_dec01 example_html ?env2))))
     = stored_reports (snd (post_archive ''t2'' example_auth headers_dec01 example_html ?env2))"
    using post_archive_index_order[OF ok2] dates listing by simp
  have first: "distinct (map report_id
      (stored_reports (snd (post_archive ''t3'' example_auth headers_dec05_moved example_html ?env))))"
    using post_archive_index_order[OF ok] by blast
  show ?thesis
    using first before after other sorted_again by simp
qed

text \<open>
  C4 as stated fails: two reports that end on the same day are listed in the order of their
  insertion, so the same stored entries appear in two different orders.
\<close>

theorem post_archive_ties_counterexample:
  "stored_reports (run_requests
      [(''t1'', POST example_auth headers_dec05 example_html),
       (''t2'', POST example_auth headers_dec05_late example_html)] (fresh_env example_secret))
     = rev (stored_reports (run_requests
      [(''t1'', POST example_auth headers_dec05_late example_html),
       (''t2'', POST example_auth headers_dec05 example_html)] (fresh_env example_secret)))
   \<and> map report_id (stored_reports (run_requests
      [(''t1'', POST example_auth headers_dec05 example_html),
       (''t2'', POST example_auth headers_dec05_late example_html)] (fresh_env example_secret)))
     = [''r-dec05'', ''r-dec05-late'']
   \<and> map report_id (stored_reports (run_requests
      [(''t1'', POST example_auth headers_dec05_late example_html),
       (''t2'', POST example_auth headers_dec05 example_html)] (fresh_env example_secret)))
     = [''r-dec05-late'', ''r-dec05'']"
  by code_simp

text \<open>
  C6 (as amended). For every successful \<open>PutReport(meta, body)\<close> with report id \<open>id\<close>, the body
  is written to the content store under the key \<open>reports/{id}.html\<close>, and the content key of
  the returned and of the stored \<open>ReportMeta\<close> is \<open>reports/{id}.html\<close>.
\<close>

theorem post_archive_content_key:
  assumes ok: "post_archive now authHeader h html (run_requests history (fresh_env secret))
                 = (Inr res, env')"
      and rid: "X_Report_Id h = Some rid"
  shows "ARCHIVE_R2 env' (''reports/'' @ rid @ ''.html'') = Some html
       \<and> r2_key (post_data res) = ''reports/'' @ rid @ ''.html''
       \<and> map_option r2_key (find (\<lambda>r. report_id r = rid) (stored_reports env'))
           = Some (''reports/'' @ rid @ ''.html'')"
proof -
  have inv: "archive_inv (run_requests history (fresh_env secret))" by (rule archive_inv_history)
  have key: "r2_key (report_of_headers h) = ''reports/'' @ rid @ ''.html''"
    using rid by (simp add: report_of_headers_def)
  have c1: "ARCHIVE_R2 env' (''reports/'' @ rid @ ''.html'') = Some html"
    using post_archive_success(11)[OF ok] key by simp
  have c2: "r2_key (post_data res) = ''reports/'' @ rid @ ''.html''"
    using post_archive_success(13)[OF ok] key by simp
  have c3: "map_option r2_key (find (\<lambda>r. report_id r = rid) (stored_reports env'))
           = Some (''reports/'' @ rid @ ''.html'')"
    using stored_after_post(3)[OF ok inv] rid key by simp
  show ?thesis using c1 c2 c3 by simp
qed

theorem post_archive_content_key_witness:
  "ARCHIVE_R2 (snd (post_archive ''t1'' example_auth headers_dec01 example_html
       (run_requests [] (fresh_env example_secret)))) ''reports/r-dec01.html'' = Some example_html
   \<and> map r2_key (stored_reports (snd (post_archive ''t1'' example_auth headers_dec01 example_html
       (run_requests [] (fresh_env example_secret))))) = [''reports/r-dec01.html'']"
proof -
  let ?env = "run_requests [] (fresh_env example_secret)"
  have "isl (fst (post_archive ''t1'' example_auth headers_dec01 example_html ?env)) = False"
    by code_simp
  then obtain res where "fst (post_archive ''t1'' example_auth headers_dec01 example_html ?env) = Inr res"
    by (cases "fst (post_archive ''t1'' example_auth headers_dec01 example_html ?env)") auto
  then have ok: "post_archive ''t1'' example_auth headers_dec01 example_html ?env
      = (Inr res, snd (post_archive ''t1'' example_auth headers_dec01 example_html ?env))"
    by (simp add: prod_eq_iff)
  have rid: "X_Report_Id headers_dec01 = Some ''r-dec01''" by (simp add: headers_dec01_def)
  have keys: "map r2_key (stored_reports (snd (post_archive ''t1'' example_auth headers_dec01 example_html ?env)))
      = [''reports/r-dec01.html'']"
    by code_simp
  show ?thesis
    using post_archive_content_key[OF ok rid] keys by simp
qed

text \<open>
  C6 as stated fails: after the report \<open>r-dec01\<close> is put, nothing is stored under
  \<open>reports/r-dec01\<close>, and the content key of the entry is \<open>reports/r-dec01.html\<close>.
\<close>

theorem post_archive_content_key_counterexample:
  "ARCHIVE_R2 (snd (post_archive ''t1'' example_auth headers_dec01 example_html
       (fresh_env example_secret))) ''reports/r-dec01'' = None
   \<and> map r2_key (stored_reports (snd (post_archive ''t1'' example_auth headers_dec01 example_html
       (fresh_env example_secret)))) = [''reports/r-dec01.html'']
   \<and> ''reports/r-dec01.html'' \<noteq> ''reports/r-dec01''"
  by code_simp

text \<open>
  C7 (as amended). For every id, a successful \<open>PutReport(meta, body)\<close> followed by
  \<open>GetReport(id)\<close> returns exactly the submitted body, and the entry of the id in \<open>GetIndex\<close>
  holds the submitted id, dates, generation time, title and summary unchanged, the content
  key \<open>reports/{id}.html\<close>, and for \<open>days\<close> and \<open>total_items\<close> what \<open>parseInt\<close> reads from the
  submitted header as a double, with \<open>null\<close> where that is \<open>NaN\<close> or infinite. A count written
  in decimal digits only and below \<open>2^53\<close> comes back as submitted.
\<close>

theorem post_then_get_round_trip:
  assumes ok: "post_archive now authHeader h html (run_requests history (fresh_env secret))
                 = (Inr res, env')"
      and rid: "X_Report_Id h = Some rid"
  shows "get_report now' rid env' = Inr html
       \<and> find (\<lambda>r. report_id r = rid) (reports (get_archive now' env'))
           = Some \<lparr>report_id = rid,
                    date_range_start = the (X_Date_Start h),
                    date_range_end = the (X_Date_End h),
                    generated_at = the (X_Generated_At h),
                    title = the (X_Title h),
                    summary = the (X_Summary h),
                    r2_key = ''reports/'' @ rid @ ''.html'',
                    days = json_of_number (parseInt (the (X_Days h))),
                    total_items = json_of_number (parseInt (the (X_Total_Items h)))\<rparr>
       \<and> (list_all is_digit (the (X_Days h)) \<and> decimal (the (X_Days h)) < 2 ^ 53 \<longrightarrow>
            map_option days (find (\<lambda>r. report_id r = rid) (reports (get_archive now' env')))
              = Some (Num (decimal (the (X_Days h)))))
       \<and> (list_all is_digit (the (X_Total_Items h)) \<and> decimal (the (X_Total_Items h)) < 2 ^ 53 \<longrightarrow>
            map_option total_items (find (\<lambda>r. report_id r = rid) (reports (get_archive now' env')))
              = Some (Num (decimal (the (X_Total_Items h)))))"
proof -
  have inv: "archive_inv (run_requests history (fresh_env secret))" by (rule archive_inv_history)
  have found: "find (\<lambda>r. report_id r = rid) (stored_reports env')
      = Some (json_of_ReportMeta (report_of_headers h))"
    using stored_after_post(3)[OF ok inv] rid by simp
  have body: "ARCHIVE_R2 env' (r2_key (report_of_headers h)) = Some html"
    using post_archive_success(11)[OF ok] by simp
  have entry: "json_of_ReportMeta (report_of_headers h)
      = \<lparr>report_id = rid,
          date_range_start = the (X_Date_Start h),
          date_range_end = the (X_Date_End h),
          generated_at = the (X_Generated_At h),
          title = the (X_Title h),
          summary = the (X_Summary h),
          r2_key = ''reports/'' @ rid @ ''.html'',
          days = json_of_number (parseInt (the (X_Days h))),
          total_items = json_of_number (parseInt (the (X_Total_Items h)))\<rparr>"
    using rid by (simp add: json_of_ReportMeta_def report_of_headers_def)
  have c1: "get_report now' rid env' = Inr html"
    using found body by (simp add: get_report_def reports_getArchiveIndex)
  have c2: "find (\<lambda>r. report_id r = rid) (reports (get_archive now' env'))
      = Some (json_of_ReportMeta (report_of_headers h))"
    using found by (simp add: get_archive_def reports_getArchiveIndex)
  have d_ne: "the (X_Days h) \<noteq> []"
    using post_archive_success(8)[OF ok] by (cases "X_Days h") simp_all
  have t_ne: "the (X_Total_Items h) \<noteq> []"
    using post_archive_success(9)[OF ok] by (cases "X_Total_Items h") simp_all
  have c3: "map_option days (find (\<lambda>r. report_id r = rid) (reports (get_archive now' env')))
              = Some (Num (decimal (the (X_Days h))))"
    if "list_all is_digit (the (X_Days h))" "decimal (the (X_Days h)) < 2 ^ 53"
    unfolding c2 entry using parseInt_digits[OF d_ne that] by simp
  have c4: "map_option total_items (find (\<lambda>r. report_id r = rid) (reports (get_archive now' env')))
              = Some (Num (decimal (the (X_Total_Items h))))"
    if "list_all is_digit (the (X_Total_Items h))" "decimal (the (X_Total_Items h)) < 2 ^ 53"
    unfolding c2 entry using parseInt_digits[OF t_ne that] by simp
  show ?thesis
    using c1 c2 c3 c4 unfolding entry by blast
qed

theorem post_then_get_round_trip_witness:
  "get_report ''t3'' ''r-dec05''
      (snd (post_archive ''t2'' example_auth headers_dec05 example_html
         (run_requests [(''t1'', POST example_auth headers_dec01 example_html)]
            (fresh_env example_secret)))) = Inr example_html
   \<and> find (\<lambda>r. report_id r = ''r-dec05'')
        (reports (get_archive ''t3''
          (snd (post_archive ''t2'' example_auth headers_dec05 example_html
             (run_requests [(''t1'', POST example_auth headers_dec01 example_html)]
                (fresh_env example_secret))))))
       = Some \<lparr>report_id = ''r-dec05'', date_range_start = ''2025-12-02'',
                date_range_end = ''2025-12-05'', generated_at = ''2025-12-05T08:00:00Z'',
                title = ''Digest two'', summary = ''Second week'',
                r2_key = ''reports/r-dec05.html'', days = Num 4, total_items = Num 17\<rparr>
   \<and> list_all is_digit ''4'' \<and> decimal ''4'' = 4
   \<and> map_option days (find (\<lambda>r. report_id r = ''r-dec05'')
        (reports (get_archive ''t3''
          (snd (post_archive ''t2'' example_auth headers_dec05 example_html
             (run_requests [(''t1'', POST example_auth headers_dec01 example_html)]
                (fresh_env example_secret)))))))
       = Some (Num (decimal ''4''))
   \<and> list_all is_digit ''17'' \<and> decimal ''17'' = 17
   \<and> map_option total_items (find (\<lambda>r. report_id r = ''r-dec05'')
        (reports (get_archive ''t3''
          (snd (post_archive ''t2'' example_auth headers_dec05 example_html
             (run_requests [(''t1'', POST example_auth headers_dec01 example_html)]
                (fresh_env example_secret)))))))
       = Some (Num (decimal ''17''))"
proof -
  let ?env = "run_requests [(''t1'', POST example_auth headers_dec01 example_html)]
                (fresh_env example_secret)"
  have "isl (fst (post_archive ''t2'' example_auth headers_dec05 example_html ?env)) = False"
    by code_simp
  then obtain res where "fst (post_archive ''t2'' example_auth headers_dec05 example_html ?env) = Inr res"
    by (cases "fst (post_archive ''t2'' example_auth headers_dec05 example_html ?env)") auto
  then have ok: "post_archive ''t2'' example_auth headers_dec05 example_html ?env
      = (Inr res, snd (post_archive ''t2'' example_auth headers_dec05 example_html ?env))"
    by (simp add: prod_eq_iff)
  have rid: "X_Report_Id headers_dec05 = Some ''r-dec05''" by (simp add: headers_dec05_def)
  have d: "json_of_number (parseInt ''4'') = Num 4" by code_simp
  have t: "json_of_number (parseInt ''17'') = Num 17" by code_simp
  have dd: "list_all is_digit ''4''" "decimal ''4'' = 4" by code_simp+
  have td: "list_all is_digit ''17''" "decimal ''17'' = 17" by code_simp+
  have hd: "the (X_Days headers_dec05) = ''4''" "the (X_Total_Items headers_dec05) = ''17''"
    by (simp_all add: headers_dec05_def)
  show ?thesis
    using post_then_get_round_trip[OF ok rid, of "''t3''"] dd td
    unfolding hd by (simp add: headers_dec05_def d t)
qed

text \<open>
  C7 as stated fails: the report is put and its body comes back, but the day count
  \<open>9007199254740993\<close> is listed as \<open>9007199254740992\<close>, and the day count \<open>seven\<close> is listed as
  \<open>null\<close>.
\<close>

theorem round_trip_counts_counterexample:
  "get_report ''t2'' ''r-huge''
      (snd (post_archive ''t1'' example_auth headers_huge_days example_html
         (fresh_env example_secret))) = Inr example_html
   \<and> X_Days headers_huge_days = Some ''9007199254740993''
   \<and> map days (reports (get_archive ''t2''
        (snd (post_archive ''t1'' example_auth headers_huge_days example_html
           (fresh_env example_secret))))) = [Num 9007199254740992]
   \<and> X_Days headers_bad_days = Some ''seven''
   \<and> map days (reports (get_archive ''t2''
        (snd (post_archive ''t1'' example_auth headers_bad_days example_html
           (fresh_env example_secret))))) = [Null]"
  by code_simp

text \<open>
  C10 (as amended). \<open>PutReport\<close> validates only the presence of the metadata headers, not
  their content: every authorised request with the eight headers non-empty and a body that
  is not blank succeeds, also when \<open>parseInt\<close> reads no number from \<open>X-Days\<close> or
  \<open>X-Total-Items\<close> (no decimal digit follows the optional white space and sign). The field
  built for the report is then \<open>NaN\<close>, and what is stored and returned for it is JSON
  \<open>null\<close>, not an integer.
\<close>

theorem post_archive_presence_only:
  assumes auth: "isAuthorized authHeader (run_requests history (fresh_env secret))"
      and rid: "X_Report_Id h = Some rid" and "rid \<noteq> []"
      and present: "\<not> falsy (X_Date_Start h)" "\<not> falsy (X_Date_End h)"
          "\<not> falsy (X_Generated_At h)" "\<not> falsy (X_Title h)" "\<not> falsy (X_Summary h)"
          "\<not> falsy (X_Days h)" "\<not> falsy (X_Total_Items h)"
      and body: "trim html \<noteq> []"
  shows "\<exists>res m. fst (post_archive now authHeader h html (run_requests history (fresh_env secret))) = Inr res
         \<and> find (\<lambda>r. report_id r = rid)
              (stored_reports (snd (post_archive now authHeader h html
                 (run_requests history (fresh_env secret))))) = Some m
         \<and> (parseInt (the (X_Days h)) = NaN \<longrightarrow> days m = Null \<and> days (post_data res) = Null)
         \<and> (parseInt (the (X_Total_Items h)) = NaN \<longrightarrow>
               total_items m = Null \<and> total_items (post_data res) = Null)"
proof -
  let ?env = "run_requests history (fresh_env secret)"
  have idp: "\<not> falsy (X_Report_Id h)" using rid \<open>rid \<noteq> []\<close> by simp
  obtain res env' where ok: "post_archive now authHeader h html ?env = (Inr res, env')"
    using post_archive_accepts[OF auth idp present body] by blast
  have inv: "archive_inv ?env" by (rule archive_inv_history)
  have found: "find (\<lambda>r. report_id r = rid) (stored_reports env')
      = Some (json_of_ReportMeta (report_of_headers h))"
    using stored_after_post(3)[OF ok inv] rid by simp
  have data: "post_data res = json_of_ReportMeta (report_of_headers h)"
    using post_archive_success(13)[OF ok] .
  have d: "days (json_of_ReportMeta (report_of_headers h)) = json_of_number (parseInt (the (X_Days h)))"
    and t: "total_items (json_of_ReportMeta (report_of_headers h))
              = json_of_number (parseInt (the (X_Total_Items h)))"
    by (simp_all add: json_of_ReportMeta_def report_of_headers_def)
  show ?thesis
    using ok found data d t by auto
qed

theorem post_archive_presence_only_witness:
  "map days (stored_reports (snd (post_archive ''t1'' example_auth headers_bad_days example_html
       (run_requests [] (fresh_env example_secret))))) = [Null]
   \<and> isl (fst (post_archive ''t1'' example_auth headers_bad_days example_html
       (run_requests [] (fresh_env example_secret)))) = False"
proof -
  have auth: "isAuthorized example_auth (run_requests [] (fresh_env example_secret))"
    by code_simp
  have rid: "X_Report_Id headers_bad_days = Some ''r-bad''" by (simp add: headers_bad_days_def)
  have body: "trim example_html \<noteq> []" by code_simp
  have nan: "parseInt (the (X_Days headers_bad_days)) = NaN" by code_simp
  have stored: "map days (stored_reports (snd (post_archive ''t1'' example_auth headers_bad_days example_html
       (run_requests [] (fresh_env example_secret))))) = [Null]"
    by code_simp
  show ?thesis
    using post_archive_presence_only[OF auth rid _ _ _ _ _ _ _ _ body, of "''t1''"] stored
    by (auto simp: headers_bad_days_def)
qed

text \<open>
  C10 as stated fails: for the day count \<open>seven\<close> the stored entry holds \<open>null\<close>, not \<open>NaN\<close>.
\<close>

theorem post_archive_stores_null_counterexample:
  "parseInt ''seven'' = NaN
   \<and> map days (stored_reports (snd (post_archive ''t1'' example_auth headers_bad_days example_html
       (fresh_env example_secret)))) = [Null]
   \<and> Null \<noteq> NaN"
  by code_simp

section \<open>PatchReportMeta\<close>


lemma json_apply_patch:
  "json_of_ReportMeta (apply_patch b r) = apply_patch b (json_of_ReportMeta r)"
  by (simp add: json_of_ReportMeta_def apply_patch_def)

lemma patch_archive_nothing_supplied:
  assumes "isAuthorized authHeader env" "falsy (patch_title b)" "falsy (patch_summary b)"
  shows "patch_archive now authHeader rid (Some b) env
        = (Inl (Http_error 400 ''Request body must contain at least one of: title, summary''), env)"
  using assms by (simp add: patch_archive_def)

lemma patch_archive_absent:
  assumes "isAuthorized authHeader env" "\<not> (falsy (patch_title b) \<and> falsy (patch_summary b))"
      and "\<not> list_ex (\<lambda>r. report_id r = rid) (stored_reports env)"
  shows "patch_archive now authHeader rid (Some b) env = (Inl (Http_error 404 ''Report not found''), env)"
proof -
  have "findIndex (\<lambda>r. report_id r = rid) (stored_reports env) = None"
    using assms(3) by (simp add: findIndex_None list_ex_iff)
  then show ?thesis
    using assms(1,2) by (auto simp: patch_archive_def reports_getArchiveIndex Let_def)
qed

lemma patch_archive_updates:
  assumes inv: "archive_inv env"
      and auth: "isAuthorized authHeader env"
      and supplied: "\<not> (falsy (patch_title b) \<and> falsy (patch_summary b))"
      and idx: "findIndex (\<lambda>r. report_id r = rid) (stored_reports env) = Some i"
  shows "find (\<lambda>r. report_id r = rid) (stored_reports env) = Some (stored_reports env ! i)"
    and "fst (patch_archive now authHeader rid (Some b) env)
           = Inr (apply_patch b (stored_reports env ! i))"
    and "stored_reports (snd (patch_archive now authHeader rid (Some b) env))
           = (stored_reports env)[i := apply_patch b (stored_reports env ! i)]"
    and "ARCHIVE_R2 (snd (patch_archive now authHeader rid (Some b) env)) = ARCHIVE_R2 env"
proof -
  have i: "i < length (stored_reports env)" using findIndex_Some[OF idx] by simp
  have clean: "json_of_ReportMeta (stored_reports env ! i) = stored_reports env ! i"
    using inv i by (simp add: archive_inv_def list_all_length)
  have clean': "json_of_ReportMeta (apply_patch b (stored_reports env ! i))
      = apply_patch b (stored_reports env ! i)"
    by (simp add: json_apply_patch clean)
  have all_clean: "map json_of_ReportMeta ((stored_reports env)[i := apply_patch b (stored_reports env ! i)])
      = (stored_reports env)[i := apply_patch b (stored_reports env ! i)]"
    using inv clean' by (simp add: map_update archive_inv_def map_json_clean)
  note run = patch_archive_found[OF auth supplied idx, of now]
  show "find (\<lambda>r. report_id r = rid) (stored_reports env) = Some (stored_reports env ! i)"
    by (rule findIndex_find[OF idx])
  show "fst (patch_archive now authHeader rid (Some b) env)
           = Inr (apply_patch b (stored_reports env ! i))"
    unfolding run by (simp add: clean')
  show "stored_reports (snd (patch_archive now authHeader rid (Some b) env))
           = (stored_reports env)[i := apply_patch b (stored_reports env ! i)]"
    unfolding run by (simp add: stored_reports_save all_clean)
  show "ARCHIVE_R2 (snd (patch_archive now authHeader rid (Some b) env)) = ARCHIVE_R2 env"
    unfolding run by simp
qed

text \<open>
  C8. For an authorised \<open>PatchReportMeta(id, fields)\<close> with a JSON body: when neither \<open>title\<close>
  nor \<open>summary\<close> is supplied (absent or empty), it fails with 400 and the store is unchanged;
  otherwise, when the id is absent from the index, it fails with 404 and the store is
  unchanged; otherwise (on a store that archive requests built from a fresh deployment) it
  answers with the entry of the id in which exactly the supplied fields are replaced, the
  index holds that entry at the same position, every other entry is unchanged, and no
  report body is touched.
\<close>

theorem patch_archive_behaviour:
  "(isAuthorized authHeader env \<and> falsy (patch_title b) \<and> falsy (patch_summary b) \<longrightarrow>
      patch_archive now authHeader rid (Some b) env
        = (Inl (Http_error 400 ''Request body must contain at least one of: title, summary''), env))
   \<and> (isAuthorized authHeader env \<and> \<not> (falsy (patch_title b) \<and> falsy (patch_summary b))
        \<and> \<not> list_ex (\<lambda>r. report_id r = rid) (stored_reports env) \<longrightarrow>
      patch_archive now authHeader rid (Some b) env = (Inl (Http_error 404 ''Report not found''), env))
   \<and> (env = run_requests history (fresh_env secret)
        \<and> isAuthorized authHeader env \<and> \<not> (falsy (patch_title b) \<and> falsy (patch_summary b))
        \<and> findIndex (\<lambda>r. report_id r = rid) (stored_reports env) = Some i \<longrightarrow>
      find (\<lambda>r. report_id r = rid) (stored_reports env) = Some (stored_reports env ! i)
      \<and> fst (patch_archive now authHeader rid (Some b) env)
           = Inr ((stored_reports env ! i)
                    \<lparr>title := (if falsy (patch_title b) then title (stored_reports env ! i)
                                else the (patch_title b)),
                      summary := (if falsy (patch_summary b) then summary (stored_reports env ! i)
                                  else the (patch_summary b))\<rparr>)
      \<and> stored_reports (snd (patch_archive now authHeader rid (Some b) env))
           = (stored_reports env)
               [i := (stored_reports env ! i)
                    \<lparr>title := (if falsy (patch_title b) then title (stored_reports env ! i)
                                else the (patch_title b)),
                      summary := (if falsy (patch_summary b) then summary (stored_reports env ! i)
                                  else the (patch_summary b))\<rparr>]
      \<and> ARCHIVE_R2 (snd (patch_archive now authHeader rid (Some b) env)) = ARCHIVE_R2 env)"
proof (intro conjI impI)
  assume "isAuthorized authHeader env \<and> falsy (patch_title b) \<and> falsy (patch_summary b)"
  then show "patch_archive now authHeader rid (Some b) env
        = (Inl (Http_error 400 ''Request body must contain at least one of: title, summary''), env)"
    using patch_archive_nothing_supplied by blast
next
  assume "isAuthorized authHeader env \<and> \<not> (falsy (patch_title b) \<and> falsy (patch_summary b))
        \<and> \<not> list_ex (\<lambda>r. report_id r = rid) (stored_reports env)"
  then show "patch_archive now authHeader rid (Some b) env = (Inl (Http_error 404 ''Report not found''), env)"
    using patch_archive_absent by blast
next
  assume h: "env = run_requests history (fresh_env secret)
        \<and> isAuthorized authHeader env \<and> \<not> (falsy (patch_title b) \<and> falsy (patch_summary b))
        \<and> findIndex (\<lambda>r. report_id r = rid) (stored_reports env) = Some i"
  then have inv: "archive_inv env" using archive_inv_history by simp
  from h have auth: "isAuthorized authHeader env"
    and supplied: "\<not> (falsy (patch_title b) \<and> falsy (patch_summary b))"
    and idx: "findIndex (\<lambda>r. report_id r = rid) (stored_reports env) = Some i"
    by blast+
  note facts = patch_archive_updates[OF inv auth supplied idx, unfolded apply_patch_def]
  from h show "find (\<lambda>r. report_id r = rid) (stored_reports env) = Some (stored_reports env ! i)"
    using facts(1) by blast
  from h show "fst (patch_archive now authHeader rid (Some b) env)
           = Inr ((stored_reports env ! i)
                    \<lparr>title := (if falsy (patch_title b) then title (stored_reports env ! i)
                                else the (patch_title b)),
                      summary := (if falsy (patch_summary b) then summary (stored_reports env ! i)
                                  else the (patch_summary b))\<rparr>)"
    using facts(2) by blast
  from h show "stored_reports (snd (patch_archive now authHeader rid (Some b) env))
           = (stored_reports env)
               [i := (stored_reports env ! i)
                    \<lparr>title := (if falsy (patch_title b) then title (stored_reports env ! i)
                                else the (patch_title b)),
                      summary := (if falsy (patch_summary b) then summary (stored_reports env ! i)
                                  else the (patch_summary b))\<rparr>]"
    using facts(3) by blast
  from h show "ARCHIVE_R2 (snd (patch_archive now authHeader rid (Some b) env)) = ARCHIVE_R2 env"
    using facts(4) by blast
qed

theorem patch_archive_behaviour_witness:
  "patch_archive ''t2'' example_auth ''r-dec01''
      (Some \<lparr>patch_title = None, patch_summary = Some []\<rparr>) after_dec01
     = (Inl (Http_error 400 ''Request body must contain at least one of: title, summary''), after_dec01)
   \<and> patch_archive ''t2'' example_auth ''r-dec05'' (Some example_patch) after_dec01
     = (Inl (Http_error 404 ''Report not found''), after_dec01)
   \<and> stored_reports (snd (patch_archive ''t2'' example_auth ''r-dec01'' (Some example_patch) after_dec01))
     = [\<lparr>report_id = ''r-dec01'', date_range_start = ''2025-11-25'',
          date_range_end = ''2025-12-01'', generated_at = ''2025-12-01T08:00:00Z'',
          title = ''Digest one, revised'', summary = ''First week'',
          r2_key = ''reports/r-dec01.html'', days = Num 7, total_items = Num 42\<rparr>]"
proof -
  have auth: "isAuthorized example_auth after_dec01"
    unfolding after_dec01_def by code_simp
  have stored: "stored_reports after_dec01
      = [\<lparr>report_id = ''r-dec01'', date_range_start = ''2025-11-25'',
          date_range_end = ''2025-12-01'', generated_at = ''2025-12-01T08:00:00Z'',
          title = ''Digest one'', summary = ''First week'',
          r2_key = ''reports/r-dec01.html'', days = Num 7, total_items = Num 42\<rparr>]"
    unfolding after_dec01_def by code_simp
  have reach: "after_dec01 = run_requests [(''t1'', POST example_auth headers_dec01 example_html)]
                   (fresh_env example_secret)"
    by (simp add: after_dec01_def)
  have idx: "findIndex (\<lambda>r. report_id r = ''r-dec01'') (stored_reports after_dec01) = Some 0"
    unfolding stored by simp
  have absent: "\<not> list_ex (\<lambda>r. report_id r = ''r-dec05'') (stored_reports after_dec01)"
    unfolding stored by simp
  show ?thesis
    using patch_archive_behaviour[of example_auth after_dec01
            "\<lparr>patch_title = None, patch_summary = Some []\<rparr>" "''t2''" "''r-dec01''"
            "[(''t1'', POST example_auth headers_dec01 example_html)]" example_secret 0]
          patch_archive_behaviour[of example_auth after_dec01 example_patch "''t2''" "''r-dec05''"
            "[(''t1'', POST example_auth headers_dec01 example_html)]" example_secret 0]
          patch_archive_behaviour[of example_auth after_dec01 example_patch "''t2''" "''r-dec01''"
            "[(''t1'', POST example_auth headers_dec01 example_html)]" example_secret 0]
          auth reach idx absent
    by (simp add: stored example_patch_def)
qed

section \<open>GetReport\<close>

text \<open>
  C9 (as amended). \<open>GetReport(id)\<close> fails with status 404 both when the id is absent from the
  index and when the content key of the index entry has no body in the content store; the
  two causes carry different messages ("Report not found" and "Report content not found in
  storage"), so the caller can tell them apart.
\<close>

theorem get_report_not_found:
  "(\<not> list_ex (\<lambda>r. report_id r = rid) (stored_reports env) \<longrightarrow>
      get_report now rid env = Inl (Http_error 404 ''Report not found''))
   \<and> (find (\<lambda>r. report_id r = rid) (stored_reports env) = Some r
        \<and> ARCHIVE_R2 env (r2_key r) = None \<longrightarrow>
      get_report now rid env = Inl (Http_error 404 ''Report content not found in storage''))"
proof (intro conjI impI)
  assume "\<not> list_ex (\<lambda>r. report_id r = rid) (stored_reports env)"
  then have "find (\<lambda>r. report_id r = rid) (stored_reports env) = None"
    by (simp add: find_None_iff_list_ex)
  then show "get_report now rid env = Inl (Http_error 404 ''Report not found'')"
    by (simp add: get_report_def reports_getArchiveIndex)
next
  assume "find (\<lambda>r. report_id r = rid) (stored_reports env) = Some r
        \<and> ARCHIVE_R2 env (r2_key r) = None"
  then show "get_report now rid env = Inl (Http_error 404 ''Report content not found in storage'')"
    by (simp add: get_report_def reports_getArchiveIndex)
qed

theorem get_report_not_found_witness:
  "get_report ''t2'' ''r-dec01'' (fresh_env example_secret) = Inl (Http_error 404 ''Report not found'')
   \<and> get_report ''t2'' ''r-dec01'' dangling_env
       = Inl (Http_error 404 ''Report content not found in storage'')"
proof -
  have absent: "\<not> list_ex (\<lambda>r. report_id r = ''r-dec01'') (stored_reports (fresh_env example_secret))"
    by (simp add: stored_reports_def fresh_env_def)
  have stored: "stored_reports dangling_env = [json_of_ReportMeta (report_of_headers headers_dec01)]"
    by (simp add: stored_reports_def dangling_env_def)
  have rid: "report_id (report_of_headers headers_dec01) = ''r-dec01''"
    by (simp add: report_of_headers_def headers_dec01_def)
  have found: "find (\<lambda>r. report_id r = ''r-dec01'') (stored_reports dangling_env)
      = Some (json_of_ReportMeta (report_of_headers headers_dec01))"
    unfolding stored by (simp add: rid)
  have missing: "ARCHIVE_R2 dangling_env (r2_key (json_of_ReportMeta (report_of_headers headers_dec01))) = None"
    by (simp add: dangling_env_def)
  show ?thesis
    using get_report_not_found[where rid = "''r-dec01''" and env = "fresh_env example_secret"
             and now = "''t2''"]
          get_report_not_found[where rid = "''r-dec01''" and env = dangling_env
             and r = "json_of_ReportMeta (report_of_headers headers_dec01)" and now = "''t2''"]
          absent found missing
    by simp
qed

text \<open>
  C9 as stated fails: the answers to the two causes are not the same response.
\<close>

theorem get_report_causes_differ_counterexample:
  "get_report ''t2'' ''r-dec01'' (fresh_env example_secret)
     \<noteq> get_report ''t2'' ''r-dec01'' dangling_env"
proof -
  have a: "get_report ''t2'' ''r-dec01'' (fresh_env example_secret)
      = Inl (Http_error 404 ''Report not found'')"
    by (simp add: get_report_def getArchiveIndex_def fresh_env_def)
  have rid: "report_id (report_of_headers headers_dec01) = ''r-dec01''"
    by (simp add: report_of_headers_def headers_dec01_def)
  have b: "get_report ''t2'' ''r-dec01'' dangling_env
      = Inl (Http_error 404 ''Report content not found in storage'')"
    by (simp add: get_report_def getArchiveIndex_def dangling_env_def rid)
  show ?thesis unfolding a b by simp
qed

end
